theory Spec2Isabelle
  imports Complex_Main
begin

section \<open>ECMAScript time values\<close>

text \<open>
  A JavaScript \<^verbatim>\<open>Date\<close> object holds one time value, a number of milliseconds.
  The methods the program calls (\<^verbatim>\<open>getDay\<close>, \<^verbatim>\<open>getDate\<close>, \<^verbatim>\<open>getFullYear\<close>,
  \<^verbatim>\<open>setDate\<close>, \<^verbatim>\<open>setHours\<close>, the constructor) all work on local time. The model
  takes a time zone with a constant offset from UTC (no daylight-saving transitions), so
  a date is represented by its local time value: milliseconds since local midnight of
  1 January 1970. Differences of two dates are the same in local time and in UTC.
  Time values are unbounded integers here; the Invalid Date and the limit of
  8.64e15 ms of ECMAScript's TimeClip are not represented.

  The definitions below are the abstract operations of the ECMAScript specification
  (section "Time Values and Time Range" and following), under their names there.
\<close>

type_synonym time_value = int

definition msPerDay :: int where
  "msPerDay = 86400000"

definition msPerHour :: int where
  "msPerHour = 3600000"

definition msPerMinute :: int where
  "msPerMinute = 60000"

definition msPerSecond :: int where
  "msPerSecond = 1000"

definition Day :: "time_value \<Rightarrow> int" where
  "Day t = t div msPerDay"

definition TimeWithinDay :: "time_value \<Rightarrow> int" where
  "TimeWithinDay t = t mod msPerDay"

definition DaysInYear :: "int \<Rightarrow> int" where
  "DaysInYear y =
     (if y mod 4 \<noteq> 0 then 365
      else if y mod 100 \<noteq> 0 then 366
      else if y mod 400 \<noteq> 0 then 365
      else 366)"

definition DayFromYear :: "int \<Rightarrow> int" where
  "DayFromYear y =
     365 * (y - 1970) + (y - 1969) div 4 - (y - 1901) div 100 + (y - 1601) div 400"

definition TimeFromYear :: "int \<Rightarrow> time_value" where
  "TimeFromYear y = msPerDay * DayFromYear y"

lemma div_step:
  fixes x k :: int
  assumes "0 < k"
  shows "(x + 1) div k = x div k + (if (x + 1) mod k = 0 then 1 else 0)"
proof -
  have a: "x = k * (x div k) + x mod k" by simp
  have b: "0 \<le> x mod k" "x mod k < k" using assms by simp_all
  show ?thesis
  proof (cases "x mod k = k - 1")
    case True
    have "x + 1 = k * (x div k) + (k - 1) + 1" using a True by simp
    then have e: "x + 1 = k * (x div k + 1) + 0" by (simp add: algebra_simps)
    have "(x + 1) div k = x div k + 1"
      using e by (rule int_div_pos_eq) (use assms in simp_all)
    moreover have "(x + 1) mod k = 0"
      using e by (rule int_mod_pos_eq) (use assms in simp_all)
    ultimately show ?thesis by simp
  next
    case False
    then have c: "x mod k + 1 < k" "0 \<le> x mod k + 1" "x mod k + 1 \<noteq> 0"
      using b by simp_all
    have e: "x + 1 = k * (x div k) + (x mod k + 1)" using a by simp
    have "(x + 1) div k = x div k" using e c(2) c(1) by (rule int_div_pos_eq)
    moreover have "(x + 1) mod k = x mod k + 1" using e c(2) c(1) by (rule int_mod_pos_eq)
    ultimately show ?thesis using c(3) by simp
  qed
qed

lemma mod_shift: "(k::int) dvd c \<Longrightarrow> (y - c) mod k = y mod k"
  by (metis dvd_imp_mod_0 mod_diff_right_eq diff_zero)

lemma leap_step_4:
  "((y::int) - 1968) div 4 = (y - 1969) div 4 + (if y mod 4 = 0 then 1 else 0)"
  using div_step [of 4 "y - 1969"] mod_shift [of 4 1968 y] by simp

lemma leap_step_100:
  "((y::int) - 1900) div 100 = (y - 1901) div 100 + (if y mod 100 = 0 then 1 else 0)"
  using div_step [of 100 "y - 1901"] mod_shift [of 100 1900 y] by simp

lemma leap_step_400:
  "((y::int) - 1600) div 400 = (y - 1601) div 400 + (if y mod 400 = 0 then 1 else 0)"
  using div_step [of 400 "y - 1601"] mod_shift [of 400 1600 y] by simp

lemma mod_400_100: "(y::int) mod 400 = 0 \<Longrightarrow> y mod 100 = 0"
  using mod_mod_cancel [of 100 400 y] by simp

lemma mod_100_4: "(y::int) mod 100 = 0 \<Longrightarrow> y mod 4 = 0"
  using mod_mod_cancel [of 4 100 y] by simp

lemma DayFromYear_Suc: "DayFromYear (y + 1) = DayFromYear y + DaysInYear y"
  using mod_400_100 [of y] mod_100_4 [of y]
  by (auto simp add: DayFromYear_def DaysInYear_def leap_step_4 leap_step_100 leap_step_400)

lemma DaysInYear_bounds: "365 \<le> DaysInYear y" "DaysInYear y \<le> 366"
  by (simp_all add: DaysInYear_def)

text \<open>
  ECMAScript defines \<open>YearFromTime t\<close> as the largest integer \<open>y\<close> with
  \<open>TimeFromYear y \<le> t\<close>. The search below computes it: from an estimate it walks to
  the year whose first day is at or before the day of \<open>t\<close> and whose successor's
  first day is after it (\<open>year_search_bounds\<close>, \<open>YearFromTime_largest\<close>).
\<close>

function year_search :: "int \<Rightarrow> int \<Rightarrow> int" where
  "year_search y dy =
     (if DayFromYear (y + 1) \<le> dy then year_search (y + 1) dy
      else if dy < DayFromYear y then year_search (y - 1) dy
      else y)"
  by pat_completeness auto
termination
proof (relation "measure (\<lambda>(y, dy). if dy < DayFromYear y
          then nat (DayFromYear y - dy) + 366 else nat (dy - DayFromYear y))")
  show "wf (measure (\<lambda>(y, dy). if dy < DayFromYear y
          then nat (DayFromYear y - dy) + 366 else nat (dy - DayFromYear y)))"
    by simp
next
  fix y dy :: int
  assume "DayFromYear (y + 1) \<le> dy"
  moreover have "DayFromYear (y + 1) = DayFromYear y + DaysInYear y"
    by (rule DayFromYear_Suc)
  moreover have "365 \<le> DaysInYear y" by (rule DaysInYear_bounds)
  ultimately show "((y + 1, dy), (y, dy)) \<in> measure (\<lambda>(y, dy). if dy < DayFromYear y
          then nat (DayFromYear y - dy) + 366 else nat (dy - DayFromYear y))"
    by simp
next
  fix y dy :: int
  assume "\<not> DayFromYear (y + 1) \<le> dy" and lt: "dy < DayFromYear y"
  have "DayFromYear (y - 1 + 1) = DayFromYear (y - 1) + DaysInYear (y - 1)"
    by (rule DayFromYear_Suc)
  then have e: "DayFromYear y = DayFromYear (y - 1) + DaysInYear (y - 1)" by simp
  have "365 \<le> DaysInYear (y - 1)" "DaysInYear (y - 1) \<le> 366"
    by (rule DaysInYear_bounds)+
  with e lt show "((y - 1, dy), (y, dy)) \<in> measure (\<lambda>(y, dy). if dy < DayFromYear y
          then nat (DayFromYear y - dy) + 366 else nat (dy - DayFromYear y))"
    by auto
qed

declare year_search.simps [simp del]

definition YearFromTime :: "time_value \<Rightarrow> int" where
  "YearFromTime t = year_search (1970 + Day t div 366) (Day t)"

definition InLeapYear :: "time_value \<Rightarrow> int" where
  "InLeapYear t = (if DaysInYear (YearFromTime t) = 366 then 1 else 0)"

definition DayWithinYear :: "time_value \<Rightarrow> int" where
  "DayWithinYear t = Day t - DayFromYear (YearFromTime t)"

definition MonthFromTime :: "time_value \<Rightarrow> int" where
  "MonthFromTime t =
     (let d = DayWithinYear t; l = InLeapYear t in
      if d < 31 then 0
      else if d < 59 + l then 1
      else if d < 90 + l then 2
      else if d < 120 + l then 3
      else if d < 151 + l then 4
      else if d < 181 + l then 5
      else if d < 212 + l then 6
      else if d < 243 + l then 7
      else if d < 273 + l then 8
      else if d < 304 + l then 9
      else if d < 334 + l then 10
      else 11)"

definition DateFromTime :: "time_value \<Rightarrow> int" where
  "DateFromTime t =
     (let d = DayWithinYear t; l = InLeapYear t; m = MonthFromTime t in
      if m = 0 then d + 1
      else if m = 1 then d - 30
      else if m = 2 then d - 58 - l
      else if m = 3 then d - 89 - l
      else if m = 4 then d - 119 - l
      else if m = 5 then d - 150 - l
      else if m = 6 then d - 180 - l
      else if m = 7 then d - 211 - l
      else if m = 8 then d - 242 - l
      else if m = 9 then d - 272 - l
      else if m = 10 then d - 303 - l
      else d - 333 - l)"

definition WeekDay :: "time_value \<Rightarrow> int" where
  "WeekDay t = (Day t + 4) mod 7"

definition MakeTime :: "int \<Rightarrow> int \<Rightarrow> int \<Rightarrow> int \<Rightarrow> int" where
  "MakeTime hour minute sec ms =
     hour * msPerHour + minute * msPerMinute + sec * msPerSecond + ms"

text \<open>
  \<open>DaysBeforeMonth m l\<close> is the day within the year of the first day of month \<open>m\<close>
  (0 = January), \<open>l\<close> being 1 in a leap year and 0 otherwise. \<open>MakeDay\<close> is the day
  number of the first day of the month (the \<open>t\<close> that ECMAScript's MakeDay "finds")
  plus \<open>date - 1\<close>; a month outside 0..11 carries into the year.
\<close>

definition DaysBeforeMonth :: "int \<Rightarrow> int \<Rightarrow> int" where
  "DaysBeforeMonth m l =
     (if m = 0 then 0
      else if m = 1 then 31
      else if m = 2 then 59 + l
      else if m = 3 then 90 + l
      else if m = 4 then 120 + l
      else if m = 5 then 151 + l
      else if m = 6 then 181 + l
      else if m = 7 then 212 + l
      else if m = 8 then 243 + l
      else if m = 9 then 273 + l
      else if m = 10 then 304 + l
      else 334 + l)"

definition MakeDay :: "int \<Rightarrow> int \<Rightarrow> int \<Rightarrow> int" where
  "MakeDay year month date =
     (let ym = year + month div 12;
          mn = month mod 12
      in DayFromYear ym + DaysBeforeMonth mn (if DaysInYear ym = 366 then 1 else 0)
           + date - 1)"

definition MakeDate :: "int \<Rightarrow> int \<Rightarrow> time_value" where
  "MakeDate day time = day * msPerDay + time"

text \<open>
  The \<^verbatim>\<open>Date(year, month, date)\<close> constructor reads a year from 0 to 99 as
  1900 + year (ECMAScript's MakeFullYear).
\<close>

definition MakeFullYear :: "int \<Rightarrow> int" where
  "MakeFullYear y = (if 0 \<le> y \<and> y \<le> 99 then 1900 + y else y)"

subsection \<open>The methods of Date that the program calls\<close>

definition getDay :: "time_value \<Rightarrow> int" where
  "getDay t = WeekDay t"

definition getDate :: "time_value \<Rightarrow> int" where
  "getDate t = DateFromTime t"

definition getMonth :: "time_value \<Rightarrow> int" where
  "getMonth t = MonthFromTime t"

definition getFullYear :: "time_value \<Rightarrow> int" where
  "getFullYear t = YearFromTime t"

definition setDate :: "time_value \<Rightarrow> int \<Rightarrow> time_value" where
  "setDate t dt = MakeDate (MakeDay (YearFromTime t) (MonthFromTime t) dt) (TimeWithinDay t)"

definition setHours :: "time_value \<Rightarrow> int \<Rightarrow> int \<Rightarrow> int \<Rightarrow> int \<Rightarrow> time_value" where
  "setHours t hour minute sec ms = MakeDate (Day t) (MakeTime hour minute sec ms)"

definition new_Date :: "int \<Rightarrow> int \<Rightarrow> int \<Rightarrow> time_value" where
  "new_Date year month date =
     MakeDate (MakeDay (MakeFullYear year) month date) (MakeTime 0 0 0 0)"

section \<open>CalendarManager\<close>

text \<open>
  \<^verbatim>\<open>getWeekDates(weekType)\<close> of \<^verbatim>\<open>js/app.js\<close>. The clock reading
  \<^verbatim>\<open>new Date()\<close> is the parameter \<open>now\<close>. \<^verbatim>\<open>new Date(today)\<close> and
  \<^verbatim>\<open>new Date(monday)\<close> copy a time value. The \<^verbatim>\<open>for\<close> loop is
  \<open>weekDates_loop\<close>, with the array built so far as its last argument.
\<close>

function weekDates_loop :: "time_value \<Rightarrow> int \<Rightarrow> time_value list \<Rightarrow> time_value list" where
  "weekDates_loop monday i weekDates =
     (if i < 5 then
        (let date = monday;
             date = setDate date (getDate monday + i)
         in weekDates_loop monday (i + 1) (weekDates @ [date]))
      else weekDates)"
  by pat_completeness auto
termination
  by (relation "measure (\<lambda>(monday, i, weekDates). nat (5 - i))") auto

declare weekDates_loop.simps [simp del]

definition getWeekDates :: "string \<Rightarrow> time_value \<Rightarrow> time_value list" where
  "getWeekDates weekType now =
     (let today = now;
          currentDay = getDay today;
          monday = today;
          daysToMonday = (if currentDay = 0 then - 6 else 1 - currentDay);
          monday = setDate monday (getDate today + daysToMonday);
          monday = (if weekType = ''next'' then setDate monday (getDate monday + 7) else monday)
      in weekDates_loop monday 0 [])"

text \<open>
  \<^verbatim>\<open>getCalendarWeek(date)\<close> of \<^verbatim>\<open>js/app.js\<close>. The division and \<^verbatim>\<open>Math.ceil\<close>
  are taken over the rationals; the numbers involved are far below 2^53, where the
  doubles of JavaScript give the same ceiling.
\<close>

definition getCalendarWeek :: "time_value \<Rightarrow> int" where
  "getCalendarWeek date =
     (let d0 = date;
          d1 = setHours d0 0 0 0 0;
          d2 = setDate d1 (getDate d1 + 4 - (if getDay d1 = 0 then 7 else getDay d1));
          yearStart = new_Date (getFullYear d2) 0 1;
          calendarWeek = \<lceil>((rat_of_int (d2 - yearStart) / 86400000) + 1) / 7\<rceil>
      in calendarWeek)"


subsection \<open>Strings\<close>

text \<open>
  A JavaScript string is written as the bytes of its UTF-8 encoding, one \<open>char\<close> per
  byte; these are the bytes that \<^verbatim>\<open>encodeURIComponent\<close> escapes. An unpaired
  surrogate, which UTF-8 proper does not encode, is written like any other code point of
  its range, as three bytes: \<open>0xED\<close>, a byte from \<open>0xA0\<close> to \<open>0xBF\<close> and a
  continuation byte (a surrogate pair is the four bytes of its character). In valid
  UTF-8 the byte after \<open>0xED\<close> is below \<open>0xA0\<close>, so these two bytes mark an
  unpaired surrogate. Concatenation of strings is \<open>@\<close>: the program never puts two
  of its inputs side by side without template text between them, so no two unpaired
  halves meet to form a pair. The non-ASCII characters of the program's templates are
  named here.
\<close>

definition nl :: string where
  "nl = [CHR 0x0A]"

definition bullet :: string where
  "bullet = [CHR 0xE2, CHR 0x80, CHR 0xA2]"

definition auml :: string where
  "auml = [CHR 0xC3, CHR 0xA4]"



text \<open>\<^verbatim>\<open>Number.prototype.toString\<close> on an integer: decimal digits, a minus sign first.\<close>

function string_of_nat :: "nat \<Rightarrow> string" where
  "string_of_nat n =
     (if n < 10 then [''0123456789'' ! n]
      else string_of_nat (n div 10) @ [''0123456789'' ! (n mod 10)])"
  by pat_completeness auto
termination
  by (relation "measure id") auto

declare string_of_nat.simps [simp del]

definition Number_toString :: "int \<Rightarrow> string" where
  "Number_toString i =
     (if i < 0 then ''-'' @ string_of_nat (nat (- i)) else string_of_nat (nat i))"


text \<open>
  The values a property of the pickup object holds: a checkbox state, the text of a
  time field, or nothing (\<^verbatim>\<open>undefined\<close>, also the value of an absent property).
  \<open>truthy\<close> is ECMAScript's ToBoolean, \<open>ToString\<close> the conversion a template literal
  applies.
\<close>

datatype jsval = JUndefined | JBool bool | JString string

fun truthy :: "jsval \<Rightarrow> bool" where
  "truthy JUndefined = False"
| "truthy (JBool b) = b"
| "truthy (JString s) = (s \<noteq> [])"

fun ToString :: "jsval \<Rightarrow> string" where
  "ToString JUndefined = ''undefined''"
| "ToString (JBool b) = (if b then ''true'' else ''false'')"
| "ToString (JString s) = s"

type_synonym pickup_data = "string \<Rightarrow> jsval"

subsection \<open>Formatting and the pickup list\<close>

definition dayNames :: "string list" where
  "dayNames = [''Montag'', ''Dienstag'', ''Mittwoch'', ''Donnerstag'', ''Freitag'']"

definition dayIds :: "string list" where
  "dayIds = [''monday'', ''tuesday'', ''wednesday'', ''thursday'', ''friday'']"

text \<open>
  \<^verbatim>\<open>formatDate(date)\<close> is \<^verbatim>\<open>date.toLocaleDateString('de-DE', {year: 'numeric',
  month: 'long', day: 'numeric'})\<close>: the day, a full stop, the German month name and the
  year, as in "15. Januar 2024". The month names are the platform's locale data. The
  year is printed as the year number; for years before 1 the platform prints the year of
  the era instead, which no statement below depends on.
\<close>

definition monthNames :: "string list" where
  "monthNames = [''Januar'', ''Februar'', ''M'' @ auml @ ''rz'', ''April'', ''Mai'', ''Juni'',
     ''Juli'', ''August'', ''September'', ''Oktober'', ''November'', ''Dezember'']"

definition formatDate :: "time_value \<Rightarrow> string" where
  "formatDate date =
     Number_toString (getDate date) @ ''. '' @ monthNames ! nat (getMonth date) @ '' ''
       @ Number_toString (getFullYear date)"

record week_info =
  week :: int
  year :: int
  formatted :: string

definition getWeekInfo :: "time_value \<Rightarrow> week_info" where
  "getWeekInfo date =
     \<lparr>week = getCalendarWeek date,
      year = getFullYear date,
      formatted = ''KW '' @ Number_toString (getCalendarWeek date) @ ''/''
                    @ Number_toString (getFullYear date)\<rparr>"

text \<open>
  \<^verbatim>\<open>generatePickupList(weekType, selectedDays)\<close>: the \<^verbatim>\<open>forEach\<close> over
  \<^verbatim>\<open>dayIds\<close> is \<open>pickup_forEach\<close>, which carries the index and the array built so far.
\<close>

fun pickup_forEach ::
  "time_value list \<Rightarrow> pickup_data \<Rightarrow> string list \<Rightarrow> nat \<Rightarrow> string list \<Rightarrow> string list" where
  "pickup_forEach weekDates selectedDays [] index pickupList = pickupList"
| "pickup_forEach weekDates selectedDays (dayId # rest) index pickupList =
     pickup_forEach weekDates selectedDays rest (index + 1)
       (if truthy (selectedDays dayId) \<and> truthy (selectedDays (dayId @ ''Time'')) then
          (let formattedDate = formatDate (weekDates ! index);
               timeString = selectedDays (dayId @ ''Time'')
           in pickupList @ [bullet @ '' '' @ dayNames ! index @ '', '' @ formattedDate
                              @ '' um '' @ ToString timeString @ '' Uhr''])
        else pickupList)"

definition generatePickupList :: "string \<Rightarrow> pickup_data \<Rightarrow> time_value \<Rightarrow> string list" where
  "generatePickupList weekType selectedDays now =
     (let weekDates = getWeekDates weekType now
      in pickup_forEach weekDates selectedDays dayIds 0 [])"

subsection \<open>Date objects in a store\<close>

text \<open>
  A \<^verbatim>\<open>Date\<close> is an object: \<^verbatim>\<open>setHours\<close> and \<^verbatim>\<open>setDate\<close> overwrite the
  time value of the object they are called on, and the caller of a method passes a
  reference. The store maps a reference to the time value of its object; references
  below \<open>next_ref\<close> are the objects that exist. The functions below are
  \<^verbatim>\<open>getCalendarWeek\<close>, \<^verbatim>\<open>formatDate\<close> and \<^verbatim>\<open>getWeekInfo\<close> once more, on
  a reference and a store, statement by statement; they return the store they leave.
\<close>

record store =
  cells :: "nat \<Rightarrow> time_value"
  next_ref :: nat

definition read_Date :: "nat \<Rightarrow> store \<Rightarrow> time_value" where
  "read_Date r s = cells s r"

definition write_Date :: "nat \<Rightarrow> time_value \<Rightarrow> store \<Rightarrow> store" where
  "write_Date r tv s = s\<lparr>cells := (cells s)(r := tv)\<rparr>"

definition alloc_Date :: "time_value \<Rightarrow> store \<Rightarrow> nat \<times> store" where
  "alloc_Date tv s =
     (next_ref s, s\<lparr>cells := (cells s)(next_ref s := tv), next_ref := Suc (next_ref s)\<rparr>)"

definition getCalendarWeek_st :: "nat \<Rightarrow> store \<Rightarrow> int \<times> store" where
  "getCalendarWeek_st date s =
     (let (d, s1) = alloc_Date (read_Date date s) s;
          s2 = write_Date d (setHours (read_Date d s1) 0 0 0 0) s1;
          s3 = write_Date d
                 (setDate (read_Date d s2)
                    (getDate (read_Date d s2) + 4
                       - (if getDay (read_Date d s2) = 0 then 7 else getDay (read_Date d s2))))
                 s2;
          (yearStart, s4) = alloc_Date (new_Date (getFullYear (read_Date d s3)) 0 1) s3;
          calendarWeek =
            \<lceil>((rat_of_int (read_Date d s4 - read_Date yearStart s4) / 86400000) + 1) / 7\<rceil>
      in (calendarWeek, s4))"

definition formatDate_st :: "nat \<Rightarrow> store \<Rightarrow> string \<times> store" where
  "formatDate_st date s = (formatDate (read_Date date s), s)"

definition getWeekInfo_st :: "nat \<Rightarrow> store \<Rightarrow> week_info \<times> store" where
  "getWeekInfo_st date s =
     (let (w1, s1) = getCalendarWeek_st date s;
          y1 = getFullYear (read_Date date s1);
          (w2, s2) = getCalendarWeek_st date s1;
          y2 = getFullYear (read_Date date s2)
      in (\<lparr>week = w1, year = y1,
           formatted = ''KW '' @ Number_toString w2 @ ''/'' @ Number_toString y2\<rparr>, s2))"

section \<open>EmailManager\<close>

text \<open>
  \<^verbatim>\<open>encodeURIComponent\<close> keeps the unreserved characters (letters, digits and
  \<^verbatim>\<open>- _ . ! ~ * ' ( )\<close>) and writes every other byte of the UTF-8 encoding as a
  percent sign and two upper-case hexadecimal digits. When it meets an unpaired surrogate
  it throws a \<^verbatim>\<open>URIError\<close>, which is the result \<open>Inl URIError\<close>.
\<close>

datatype js_error = URIError

definition uriUnreserved :: "char \<Rightarrow> bool" where
  "uriUnreserved c \<longleftrightarrow>
     c \<in> set (''ABCDEFGHIJKLMNOPQRSTUVWXYZabcdefghijklmnopqrstuvwxyz0123456789-_.!~*()''
               @ [CHR 0x27])"

definition hexDigit :: "nat \<Rightarrow> char" where
  "hexDigit n = ''0123456789ABCDEF'' ! n"

definition escape_byte :: "char \<Rightarrow> string" where
  "escape_byte c =
     (if uriUnreserved c then [c]
      else [CHR ''%'', hexDigit (of_char c div 16), hexDigit (of_char c mod 16)])"

definition surrogate_at :: "string \<Rightarrow> bool" where
  "surrogate_at s =
     (case s of
        c # d # rest \<Rightarrow> c = CHR 0xED \<and> 0xA0 \<le> (of_char d :: nat) \<and> (of_char d :: nat) \<le> 0xBF
      | _ \<Rightarrow> False)"

fun encodeURIComponent :: "string \<Rightarrow> js_error + string" where
  "encodeURIComponent [] = Inr []"
| "encodeURIComponent (c # cs) =
     (if surrogate_at (c # cs) then Inl URIError
      else (case encodeURIComponent cs of
              Inl e \<Rightarrow> Inl e
            | Inr r \<Rightarrow> Inr (escape_byte c @ r)))"


text \<open>
  The optional parameter \<^verbatim>\<open>ccEmail\<close> defaults to the empty string; an absent
  \<^verbatim>\<open>parentEmail\<close> is the empty string here. The three calls of
  \<^verbatim>\<open>encodeURIComponent\<close> are made in the order of the source; the first that throws
  ends \<^verbatim>\<open>createMailtoLink\<close> with its error.
\<close>

definition createMailtoLink ::
  "string \<Rightarrow> string \<Rightarrow> string \<Rightarrow> string \<Rightarrow> js_error + string" where
  "createMailtoLink recipient subject body ccEmail =
     (case (if ccEmail \<noteq> [] then
              (case encodeURIComponent ccEmail of
                 Inl e \<Rightarrow> Inl e
               | Inr encodedCc \<Rightarrow> Inr (''&cc='' @ encodedCc))
            else Inr []) of
        Inl e \<Rightarrow> Inl e
      | Inr ccText \<Rightarrow>
          (case encodeURIComponent subject of
             Inl e \<Rightarrow> Inl e
           | Inr encodedSubject \<Rightarrow>
               (case encodeURIComponent body of
                  Inl e \<Rightarrow> Inl e
                | Inr encodedBody \<Rightarrow>
                    Inr (''mailto:'' @ recipient @ ''?subject='' @ encodedSubject
                           @ ''&body='' @ encodedBody @ ccText))))"


text \<open>
  The form data: every field is a string, as \<^verbatim>\<open>collectFormData\<close> reads them from
  the form; a field left out is the empty string.
\<close>

record form_data =
  parentName :: string
  parentEmail :: string
  childNames :: string
  childClass :: string
  bebLocation :: string
  "notes" :: string


text \<open>
  The object \<^verbatim>\<open>generateEmail\<close> returns is \<open>Inr\<close> of the record below when
  \<^verbatim>\<open>success\<close> is true and \<open>Inl\<close> of the error message when the \<^verbatim>\<open>catch\<close>
  branch returns. Two errors reach the \<^verbatim>\<open>catch\<close>: the one thrown for an empty
  pickup list, and the \<^verbatim>\<open>URIError\<close> of \<^verbatim>\<open>encodeURIComponent\<close>, whose message
  is the engine's ("URI malformed" in V8). The manager's two fields are the state;
  \<open>generateEmail\<close> returns the manager it leaves, which the \<^verbatim>\<open>catch\<close> branch
  has not touched. \<^verbatim>\<open>getWeekDates\<close> is called twice, once for the week label and
  once inside \<^verbatim>\<open>generatePickupList\<close>; \<open>now1\<close> and \<open>now2\<close> are the two clock
  readings.
\<close>

record email_data =
  subject :: string
  body :: string
  displayContent :: string
  mailtoLink :: string
  weekInfo :: week_info

record email_manager =
  currentEmailContent :: string
  currentMailtoLink :: string






definition clearCurrentEmail :: "email_manager \<Rightarrow> email_manager" where
  "clearCurrentEmail this = this\<lparr>currentEmailContent := [], currentMailtoLink := []\<rparr>"

section \<open>Definitions for the statements\<close>

text \<open>
  The ISO-8601 rule as the specification gives it: shift the date to the Thursday of its
  week, \<open>date + (4 - isoDayNumber)\<close> days with Monday = 1 .. Sunday = 7; take the day of
  the year of the shifted date within its own year; the week is the ceiling of that over 7.
\<close>

definition isoDayNumber :: "time_value \<Rightarrow> int" where
  "isoDayNumber t = (if WeekDay t = 0 then 7 else WeekDay t)"

definition iso_week_spec :: "time_value \<Rightarrow> int" where
  "iso_week_spec date =
     (let shifted = date + (4 - isoDayNumber date) * msPerDay;
          dayOfYear = DayWithinYear shifted + 1
      in \<lceil>rat_of_int dayOfYear / 7\<rceil>)"

text \<open>
  The Monday of the selected week as the specification gives it: today minus
  (dayOfWeek - 1) days, plus 7 days for the next week.
\<close>

definition monday_of :: "string \<Rightarrow> time_value \<Rightarrow> time_value" where
  "monday_of weekType now =
     now + (1 - isoDayNumber now + (if weekType = ''next'' then 7 else 0)) * msPerDay"

text \<open>
  The syntax of a time string is the pattern \<^verbatim>\<open>/^([0-1]?[0-9]|2[0-3]):[0-5][0-9]$/\<close> of
  \<^verbatim>\<open>js/validation.js\<close>.
\<close>

definition isDigit :: "char \<Rightarrow> bool" where
  "isDigit c \<longleftrightarrow> c \<in> set ''0123456789''"

definition valid_time :: "string \<Rightarrow> bool" where
  "valid_time s =
     (case s of
        [h, c, m1, m2] \<Rightarrow> isDigit h \<and> c = CHR '':'' \<and> m1 \<in> set ''012345'' \<and> isDigit m2
      | [h1, h2, c, m1, m2] \<Rightarrow>
          ((h1 \<in> set ''01'' \<and> isDigit h2) \<or> (h1 = CHR ''2'' \<and> h2 \<in> set ''0123''))
          \<and> c = CHR '':'' \<and> m1 \<in> set ''012345'' \<and> isDigit m2
      | _ \<Rightarrow> False)"

text \<open>
  The pickup list as the specification gives it: weekday \<open>i\<close> (0 = Monday) qualifies
  when it is selected and its time is a non-empty, syntactically valid time string, and
  its line is the template filled with that weekday's name, formatted date and time.
\<close>

definition qualifies :: "pickup_data \<Rightarrow> nat \<Rightarrow> bool" where
  "qualifies selectedDays i \<longleftrightarrow>
     truthy (selectedDays (dayIds ! i))
     \<and> (case selectedDays (dayIds ! i @ ''Time'') of
           JString t \<Rightarrow> valid_time t
         | _ \<Rightarrow> False)"

text \<open>
  The test \<open>generatePickupList\<close> itself makes for weekday \<open>i\<close>
  (\<^verbatim>\<open>selectedDays[dayId] && selectedDays[dayId + 'Time']\<close>): the checkbox value and the
  time value are truthy, that is, the day is selected and its time string is not empty.
\<close>

definition selected_with_time :: "pickup_data \<Rightarrow> nat \<Rightarrow> bool" where
  "selected_with_time selectedDays i \<longleftrightarrow>
     truthy (selectedDays (dayIds ! i)) \<and> truthy (selectedDays (dayIds ! i @ ''Time''))"

definition pickup_line :: "string \<Rightarrow> pickup_data \<Rightarrow> time_value \<Rightarrow> nat \<Rightarrow> string" where
  "pickup_line weekType selectedDays now i =
     bullet @ '' '' @ dayNames ! i @ '', '' @ formatDate (getWeekDates weekType now ! i)
       @ '' um '' @ ToString (selectedDays (dayIds ! i @ ''Time'')) @ '' Uhr''"

text \<open>
  Three pickup objects: Monday at 16:00, Monday with the time text "4 pm", and Tuesday
  with the time text "25:99".
\<close>

definition monday_only :: pickup_data where
  "monday_only = (\<lambda>k. JUndefined)(''monday'' := JBool True, ''mondayTime'' := JString ''16:00'')"

definition monday_malformed :: pickup_data where
  "monday_malformed = (\<lambda>k. JUndefined)(''monday'' := JBool True, ''mondayTime'' := JString ''4 pm'')"

definition tuesday_malformed :: pickup_data where
  "tuesday_malformed =
     (\<lambda>k. JUndefined)(''tuesday'' := JBool True, ''tuesdayTime'' := JString ''25:99'')"

text \<open>\<open>contains s t\<close>: the string \<open>t\<close> occurs in \<open>s\<close>.\<close>

fun contains :: "string \<Rightarrow> string \<Rightarrow> bool" where
  "contains [] t = (t = [])"
| "contains (x # xs) t = (take (length t) (x # xs) = t \<or> contains xs t)"

text \<open>
  Strings and unpaired surrogates. \<open>uri_escape\<close> escapes every byte;
  \<open>has_lone_surrogate\<close> says that an unpaired surrogate begins somewhere in the
  string. A string is \<open>well_formed\<close> when it holds no unpaired surrogate and does not
  end with the byte \<open>0xED\<close>, which opens a three-byte sequence and so is never the
  last byte of a string.
\<close>

definition uri_escape :: "string \<Rightarrow> string" where
  "uri_escape s = concat (map escape_byte s)"

fun has_lone_surrogate :: "string \<Rightarrow> bool" where
  "has_lone_surrogate [] = False"
| "has_lone_surrogate (c # cs) = (surrogate_at (c # cs) \<or> has_lone_surrogate cs)"


text \<open>The link \<open>createMailtoLink\<close> returns when \<open>encodeURIComponent\<close> does not throw.\<close>

definition mailto_text :: "string \<Rightarrow> string \<Rightarrow> string \<Rightarrow> string \<Rightarrow> string" where
  "mailto_text recipient subj bdy ccEmail =
     ''mailto:'' @ recipient @ ''?subject='' @ uri_escape subj @ ''&body='' @ uri_escape bdy
       @ (if ccEmail \<noteq> [] then ''&cc='' @ uri_escape ccEmail else [])"

text \<open>
  Percent-decoding, and reading a parameter of a \<^verbatim>\<open>mailto:\<close> URI by the generic
  syntax of URIs (RFC 3986): the fragment begins at the first number sign; the query is
  what follows the first question mark before the fragment; its fields are separated by
  ampersands, and a field is a name, an equals sign and a value.
\<close>

definition hexValue :: "char \<Rightarrow> nat option" where
  "hexValue c =
     (let n = (of_char c :: nat) in
      if 48 \<le> n \<and> n \<le> 57 then Some (n - 48)
      else if 65 \<le> n \<and> n \<le> 70 then Some (n - 55)
      else if 97 \<le> n \<and> n \<le> 102 then Some (n - 87)
      else None)"

fun percent_decode :: "string \<Rightarrow> string option" where
  "percent_decode [] = Some []"
| "percent_decode (c # h1 # h2 # rest) =
     (if c = CHR ''%'' then
        (case (hexValue h1, hexValue h2) of
           (Some a, Some b) \<Rightarrow> map_option ((#) (char_of (16 * a + b))) (percent_decode rest)
         | _ \<Rightarrow> None)
      else map_option ((#) c) (percent_decode (h1 # h2 # rest)))"
| "percent_decode (c # cs) =
     (if c = CHR ''%'' then None else map_option ((#) c) (percent_decode cs))"

text \<open>
  A percent-encoded string: unreserved characters and escapes, each escape a percent sign
  and two upper-case hexadecimal digits.
\<close>

definition isUpperHex :: "char \<Rightarrow> bool" where
  "isUpperHex c \<longleftrightarrow> c \<in> set ''0123456789ABCDEF''"

fun percent_encoded :: "string \<Rightarrow> bool" where
  "percent_encoded [] = True"
| "percent_encoded (c # h1 # h2 # rest) =
     (if c = CHR ''%'' then isUpperHex h1 \<and> isUpperHex h2 \<and> percent_encoded rest
      else uriUnreserved c \<and> percent_encoded (h1 # h2 # rest))"
| "percent_encoded (c # cs) = (uriUnreserved c \<and> percent_encoded cs)"

fun split_on :: "char \<Rightarrow> string \<Rightarrow> string list" where
  "split_on c [] = [[]]"
| "split_on c (x # xs) =
     (if x = c then [] # split_on c xs
      else (case split_on c xs of [] \<Rightarrow> [[x]] | w # ws \<Rightarrow> (x # w) # ws))"

definition uri_query :: "string \<Rightarrow> string option" where
  "uri_query u =
     (let beforeFragment = takeWhile (\<lambda>c. c \<noteq> CHR ''#'') u
      in case dropWhile (\<lambda>c. c \<noteq> CHR ''?'') beforeFragment of
           [] \<Rightarrow> None
         | q # qs \<Rightarrow> Some qs)"

definition field_name :: "string \<Rightarrow> string" where
  "field_name f = takeWhile (\<lambda>c. c \<noteq> CHR ''='') f"

definition field_value :: "string \<Rightarrow> string" where
  "field_value f = drop 1 (dropWhile (\<lambda>c. c \<noteq> CHR ''='') f)"

definition query_param :: "string \<Rightarrow> string \<Rightarrow> string option" where
  "query_param u name =
     (case uri_query u of
        None \<Rightarrow> None
      | Some q \<Rightarrow>
          map_option field_value
            (find (\<lambda>f. CHR ''='' \<in> set f \<and> field_name f = name) (split_on CHR ''&'' q)))"


definition test_pickup :: pickup_data where
  "test_pickup =
     (\<lambda>k. JUndefined)(''monday'' := JBool True, ''mondayTime'' := JString ''16:00'',
                       ''tuesday'' := JBool True, ''tuesdayTime'' := JString ''17:00'')"




text \<open>A store with one Date object, 1 January 2024 at 13:00.\<close>

definition one_date_store :: store where
  "one_date_store = \<lparr>cells = (\<lambda>r. 0)(0 := 1704114000000), next_ref = 1\<rparr>"

section \<open>Facts about time values\<close>

lemma year_search_bounds:
  "DayFromYear (year_search y dy) \<le> dy \<and> dy < DayFromYear (year_search y dy + 1)"
proof (induction y dy rule: year_search.induct)
  case (1 y dy)
  show ?case
  proof (cases "DayFromYear (y + 1) \<le> dy")
    case True
    then show ?thesis using 1(1) by (subst (1 2) year_search.simps) simp
  next
    case False
    show ?thesis
    proof (cases "dy < DayFromYear y")
      case True
      then show ?thesis using False 1(2) by (subst (1 2) year_search.simps) simp
    next
      case nlt: False
      then show ?thesis using False by (subst (1 2) year_search.simps) simp
    qed
  qed
qed

lemma YearFromTime_bounds:
  "DayFromYear (YearFromTime t) \<le> Day t" "Day t < DayFromYear (YearFromTime t + 1)"
  using year_search_bounds [of "1970 + Day t div 366" "Day t"]
  by (simp_all add: YearFromTime_def)

lemma msPerDay_pos: "0 < msPerDay"
  by (simp add: msPerDay_def)

lemma Day_MakeDate: "0 \<le> tm \<Longrightarrow> tm < msPerDay \<Longrightarrow> Day (MakeDate dy tm) = dy"
  unfolding Day_def MakeDate_def using msPerDay_pos
  by (simp add: div_pos_pos_trivial)

lemma TimeWithinDay_MakeDate:
  "0 \<le> tm \<Longrightarrow> tm < msPerDay \<Longrightarrow> TimeWithinDay (MakeDate dy tm) = tm"
  unfolding TimeWithinDay_def MakeDate_def by simp

lemma Day_TimeWithinDay: "MakeDate (Day t) (TimeWithinDay t) = t"
  unfolding Day_def TimeWithinDay_def MakeDate_def by simp

lemma TimeWithinDay_range: "0 \<le> TimeWithinDay t" "TimeWithinDay t < msPerDay"
  unfolding TimeWithinDay_def using msPerDay_pos by simp_all

lemma MonthFromTime_range: "0 \<le> MonthFromTime t" "MonthFromTime t \<le> 11"
  unfolding MonthFromTime_def Let_def by simp_all

lemma DateFromTime_eq:
  "DateFromTime t = DayWithinYear t - DaysBeforeMonth (MonthFromTime t) (InLeapYear t) + 1"
  unfolding DateFromTime_def DaysBeforeMonth_def Let_def
  using MonthFromTime_range [of t] by (simp add: MonthFromTime_def Let_def) 

lemma MakeDay_of_time:
  "MakeDay (YearFromTime t) (MonthFromTime t) (DateFromTime t + k) = Day t + k"
proof -
  have d: "MonthFromTime t div 12 = 0" "MonthFromTime t mod 12 = MonthFromTime t"
    using MonthFromTime_range [of t] by (simp_all add: div_pos_pos_trivial)
  show ?thesis
    unfolding MakeDay_def Let_def d
    by (simp add: DateFromTime_eq DayWithinYear_def InLeapYear_def)
qed

lemma setDate_getDate: "setDate t (getDate t + k) = t + k * msPerDay"
proof -
  have "setDate t (getDate t + k) = MakeDate (Day t + k) (TimeWithinDay t)"
    by (simp add: setDate_def getDate_def MakeDay_of_time)
  also have "\<dots> = MakeDate (Day t) (TimeWithinDay t) + k * msPerDay"
    by (simp add: MakeDate_def algebra_simps)
  finally show ?thesis by (simp add: Day_TimeWithinDay)
qed

lemma setHours_midnight: "setHours t 0 0 0 0 = Day t * msPerDay"
  by (simp add: setHours_def MakeDate_def MakeTime_def)

lemma Day_mult: "Day (n * msPerDay) = n"
  unfolding Day_def using msPerDay_pos by simp

lemma Day_add_days: "Day (t + k * msPerDay) = Day t + k"
  unfolding Day_def using msPerDay_pos by simp

lemma WeekDay_range: "0 \<le> WeekDay t" "WeekDay t \<le> 6"
  unfolding WeekDay_def by simp_all

lemma new_Date_Jan1: "new_Date y 0 1 = DayFromYear (MakeFullYear y) * msPerDay"
  by (simp add: new_Date_def MakeDay_def MakeDate_def MakeTime_def DaysBeforeMonth_def)

lemma Day_bounds: "Day t * msPerDay \<le> t" "t < (Day t + 1) * msPerDay"
proof -
  have e: "Day t * msPerDay + t mod msPerDay = t" unfolding Day_def by simp
  have "0 \<le> t mod msPerDay" "t mod msPerDay < msPerDay" using msPerDay_pos by simp_all
  with e show "Day t * msPerDay \<le> t" "t < (Day t + 1) * msPerDay"
    by (simp_all add: algebra_simps)
qed

lemma DayFromYear_mono: "a \<le> b \<Longrightarrow> DayFromYear a \<le> DayFromYear b"
proof (induction b rule: int_ge_induct)
  case base
  show ?case by simp
next
  case (step i)
  have "DayFromYear (i + 1) = DayFromYear i + DaysInYear i" by (rule DayFromYear_Suc)
  moreover have "365 \<le> DaysInYear i" by (rule DaysInYear_bounds)
  ultimately show ?case using step.IH by simp
qed

lemma year_unique:
  assumes "DayFromYear y \<le> dy" "dy < DayFromYear (y + 1)"
    and "DayFromYear y' \<le> dy" "dy < DayFromYear (y' + 1)"
  shows "y' = y"
proof (rule ccontr)
  assume "y' \<noteq> y"
  then consider "y' + 1 \<le> y" | "y + 1 \<le> y'" by linarith
  then show False
  proof cases
    case 1
    then have "DayFromYear (y' + 1) \<le> DayFromYear y" by (rule DayFromYear_mono)
    with assms show False by simp
  next
    case 2
    then have "DayFromYear (y + 1) \<le> DayFromYear y'" by (rule DayFromYear_mono)
    with assms show False by simp
  qed
qed

lemma YearFromTime_eqI:
  "DayFromYear y \<le> Day t \<Longrightarrow> Day t < DayFromYear (y + 1) \<Longrightarrow> YearFromTime t = y"
  using year_unique [of y "Day t" "YearFromTime t"] YearFromTime_bounds [of t] by simp

lemma YearFromTime_largest:
  "TimeFromYear (YearFromTime t) \<le> t \<and> (\<forall>y. TimeFromYear y \<le> t \<longrightarrow> y \<le> YearFromTime t)"
proof
  have "DayFromYear (YearFromTime t) * msPerDay \<le> Day t * msPerDay"
    using YearFromTime_bounds(1) [of t] msPerDay_pos by simp
  also have "\<dots> \<le> t" by (rule Day_bounds)
  finally show "TimeFromYear (YearFromTime t) \<le> t" by (simp add: TimeFromYear_def mult.commute)
next
  show "\<forall>y. TimeFromYear y \<le> t \<longrightarrow> y \<le> YearFromTime t"
  proof (intro allI impI, rule ccontr)
    fix y assume le: "TimeFromYear y \<le> t" and "\<not> y \<le> YearFromTime t"
    then have "YearFromTime t + 1 \<le> y" by simp
    then have "DayFromYear (YearFromTime t + 1) \<le> DayFromYear y" by (rule DayFromYear_mono)
    then have "Day t < DayFromYear y" using YearFromTime_bounds(2) [of t] by simp
    then have "Day t + 1 \<le> DayFromYear y" by simp
    then have "(Day t + 1) * msPerDay \<le> DayFromYear y * msPerDay"
      using msPerDay_pos by simp
    moreover have "t < (Day t + 1) * msPerDay" by (rule Day_bounds)
    ultimately show False using le by (simp add: TimeFromYear_def mult.commute)
  qed
qed

lemma YearFromTime_Day_cong: "Day s = Day t \<Longrightarrow> YearFromTime s = YearFromTime t"
  by (simp add: YearFromTime_def)

lemma DayWithinYear_range: "0 \<le> DayWithinYear t" "DayWithinYear t \<le> 365"
proof -
  show "0 \<le> DayWithinYear t" using YearFromTime_bounds(1) [of t] by (simp add: DayWithinYear_def)
  have "DayFromYear (YearFromTime t + 1) = DayFromYear (YearFromTime t) + DaysInYear (YearFromTime t)"
    by (rule DayFromYear_Suc)
  moreover have "DaysInYear (YearFromTime t) \<le> 366" by (rule DaysInYear_bounds)
  ultimately show "DayWithinYear t \<le> 365"
    using YearFromTime_bounds(2) [of t] by (simp add: DayWithinYear_def)
qed

lemma getCalendarWeek_closed:
  "getCalendarWeek date =
     (let th = Day date + 4 - isoDayNumber date in
      \<lceil>rat_of_int (th - DayFromYear (MakeFullYear (YearFromTime (th * msPerDay))) + 1) / 7\<rceil>)"
proof -
  define d1 where "d1 = setHours date 0 0 0 0"
  define th where "th = Day date + 4 - isoDayNumber date"
  define d2 where "d2 = setDate d1 (getDate d1 + 4 - (if getDay d1 = 0 then 7 else getDay d1))"
  have d1: "d1 = Day date * msPerDay" by (simp add: d1_def setHours_midnight)
  then have "Day d1 = Day date" by (simp add: Day_mult)
  then have wd: "(if getDay d1 = 0 then 7 else getDay d1) = isoDayNumber date"
    by (simp add: getDay_def WeekDay_def isoDayNumber_def)
  have "d2 = d1 + (4 - isoDayNumber date) * msPerDay"
    unfolding d2_def wd using setDate_getDate [of d1 "4 - isoDayNumber date"]
    by (simp add: algebra_simps)
  then have d2: "d2 = th * msPerDay" by (simp add: d1 th_def algebra_simps)
  have "d2 - new_Date (getFullYear d2) 0 1
        = (th - DayFromYear (MakeFullYear (YearFromTime (th * msPerDay)))) * 86400000"
    by (simp add: d2 new_Date_Jan1 getFullYear_def left_diff_distrib) (simp add: msPerDay_def)
  then have r: "rat_of_int (d2 - new_Date (getFullYear d2) 0 1) / 86400000
        = rat_of_int (th - DayFromYear (MakeFullYear (YearFromTime (th * msPerDay))))"
    by (simp only: of_int_mult of_int_numeral) simp
  show ?thesis
    unfolding getCalendarWeek_def Let_def d1_def [symmetric] d2_def [symmetric]
      th_def [symmetric] r
    by simp
qed

lemma iso_shift_Day: "Day (date + (4 - isoDayNumber date) * msPerDay) = Day date + 4 - isoDayNumber date"
  by (simp add: Day_add_days)

lemma getCalendarWeek_two_digit_free:
  assumes "\<not> (0 \<le> YearFromTime (date + (4 - isoDayNumber date) * msPerDay)
            \<and> YearFromTime (date + (4 - isoDayNumber date) * msPerDay) \<le> 99)"
  shows "getCalendarWeek date = iso_week_spec date"
proof -
  define sh where "sh = date + (4 - isoDayNumber date) * msPerDay"
  define th where "th = Day date + 4 - isoDayNumber date"
  have dsh: "Day sh = th" by (simp add: sh_def th_def iso_shift_Day)
  have "Day (th * msPerDay) = Day sh" by (simp add: dsh Day_mult)
  then have y: "YearFromTime (th * msPerDay) = YearFromTime sh" by (rule YearFromTime_Day_cong)
  have "MakeFullYear (YearFromTime sh) = YearFromTime sh"
    using assms by (auto simp add: MakeFullYear_def sh_def)
  then have "getCalendarWeek date = \<lceil>rat_of_int (th - DayFromYear (YearFromTime sh) + 1) / 7\<rceil>"
    by (simp add: getCalendarWeek_closed Let_def th_def [symmetric] y)
  also have "\<dots> = iso_week_spec date"
    by (simp add: iso_week_spec_def Let_def sh_def [symmetric] DayWithinYear_def dsh)
  finally show ?thesis .
qed

lemma iso_week_spec_range: "1 \<le> iso_week_spec date" "iso_week_spec date \<le> 53"
proof -
  define sh where "sh = date + (4 - isoDayNumber date) * msPerDay"
  have r: "0 \<le> DayWithinYear sh" "DayWithinYear sh \<le> 365" by (rule DayWithinYear_range)+
  have e: "iso_week_spec date = \<lceil>rat_of_int (DayWithinYear sh + 1) / 7\<rceil>"
    by (simp add: iso_week_spec_def Let_def sh_def)
  have "0 < rat_of_int (DayWithinYear sh + 1) / 7" using r(1) by simp
  then show "1 \<le> iso_week_spec date" unfolding e by (simp add: Ints_def)
  have "rat_of_int (DayWithinYear sh + 1) / 7 \<le> 53" using r(2) by simp
  then show "iso_week_spec date \<le> 53" unfolding e by (simp add: ceiling_le_iff)
qed

lemma Jan1_DayWithinYear:
  assumes "getMonth t = 0" "getDate t = 1"
  shows "DayWithinYear t = 0"
  using assms by (simp add: getMonth_def getDate_def DateFromTime_def Let_def)

lemma isoDayNumber_Monday: "getDay t = 1 \<Longrightarrow> isoDayNumber t = 1"
  by (simp add: getDay_def isoDayNumber_def)

lemma iso_week_spec_Jan1_Monday:
  assumes "getMonth t = 0" "getDate t = 1" "getDay t = 1"
  shows "iso_week_spec t = 1"
    and "YearFromTime (t + (4 - isoDayNumber t) * msPerDay) = YearFromTime t"
proof -
  define sh where "sh = t + (4 - isoDayNumber t) * msPerDay"
  have d0: "Day t = DayFromYear (YearFromTime t)"
    using Jan1_DayWithinYear [OF assms(1,2)] by (simp add: DayWithinYear_def)
  have dsh: "Day sh = Day t + 3"
    using Day_add_days [of t 3] by (simp add: sh_def isoDayNumber_Monday [OF assms(3)])
  have "DayFromYear (YearFromTime t + 1) = DayFromYear (YearFromTime t) + DaysInYear (YearFromTime t)"
    by (rule DayFromYear_Suc)
  moreover have "365 \<le> DaysInYear (YearFromTime t)" by (rule DaysInYear_bounds)
  ultimately have "DayFromYear (YearFromTime t) \<le> Day sh" "Day sh < DayFromYear (YearFromTime t + 1)"
    using d0 dsh by simp_all
  then have y: "YearFromTime sh = YearFromTime t" by (rule YearFromTime_eqI)
  then show "YearFromTime (t + (4 - isoDayNumber t) * msPerDay) = YearFromTime t"
    by (simp add: sh_def)
  have "DayWithinYear sh = 3" by (simp add: DayWithinYear_def y dsh d0)
  then have "iso_week_spec t = \<lceil>rat_of_int 4 / 7\<rceil>"
    by (simp add: iso_week_spec_def Let_def sh_def [symmetric])
  also have "\<dots> = 1" by (simp add: ceiling_eq_iff)
  finally show "iso_week_spec t = 1" .
qed

section \<open>The calendar week\<close>

text \<open>
  In a time zone of constant offset, as the time values here are: where the Thursday of
  the date's week lies in a year outside 0 .. 99, \<open>getCalendarWeek\<close> is the ISO-8601
  rule of the specification, its result lies between 1 and 53, and on a 1 January that is
  a Monday it is 1. (Across a daylight-saving change the two midnights that
  \<open>getCalendarWeek\<close> subtracts are not a whole number of days apart; that case is
  not represented.)
\<close>

theorem getCalendarWeek_iso_outside_years_0_99:
  assumes "\<not> (0 \<le> YearFromTime (date + (4 - isoDayNumber date) * msPerDay)
            \<and> YearFromTime (date + (4 - isoDayNumber date) * msPerDay) \<le> 99)"
  shows "getCalendarWeek date = iso_week_spec date"
    and "1 \<le> getCalendarWeek date" and "getCalendarWeek date \<le> 53"
    and "getMonth date = 0 \<and> getDate date = 1 \<and> getDay date = 1 \<longrightarrow> getCalendarWeek date = 1"
  using getCalendarWeek_two_digit_free [OF assms] iso_week_spec_range [of date]
    iso_week_spec_Jan1_Monday(1) [of date]
  by simp_all

theorem getCalendarWeek_iso_outside_years_0_99_witness:
  "getCalendarWeek 1704067200000 = iso_week_spec 1704067200000
   \<and> getMonth 1704067200000 = 0 \<and> getDate 1704067200000 = 1 \<and> getDay 1704067200000 = 1
   \<and> getCalendarWeek 1704067200000 = 1"
proof -
  have y: "\<not> (0 \<le> YearFromTime (1704067200000 + (4 - isoDayNumber 1704067200000) * msPerDay)
            \<and> YearFromTime (1704067200000 + (4 - isoDayNumber 1704067200000) * msPerDay) \<le> 99)"
    by code_simp
  have j: "getMonth 1704067200000 = 0 \<and> getDate 1704067200000 = 1 \<and> getDay 1704067200000 = 1"
    by code_simp
  show ?thesis
    using getCalendarWeek_iso_outside_years_0_99(1,4) [OF y] j by simp
qed

text \<open>The dates of the repository's test suite.\<close>

lemma getCalendarWeek_repository_tests:
  "getCalendarWeek (new_Date 2024 0 1) = 1"
  "getCalendarWeek (new_Date 2023 11 31) = 52"
  "getDay (new_Date 2024 0 1) = 1"
  by code_simp+

text \<open>
  C1. The claim: for every date, \<open>getCalendarWeek\<close> returns the week number of the
  ISO-8601 rule, an integer from 1 to 53, and 1 on a 1 January that is a Monday.
  \<^verbatim>\<open>new Date(d.getFullYear(), 0, 1)\<close> reads a year from 0 to 99 as 1900 + year, so for
  a date in those years \<open>yearStart\<close> is nineteen centuries after the date. On
  1 January of the year 1, a Monday (time value -62135596800000), the rule gives week 1
  and \<open>getCalendarWeek\<close> returns -99136.
\<close>

theorem getCalendarWeek_year_1:
  "getFullYear (- 62135596800000) = 1 \<and> getMonth (- 62135596800000) = 0
   \<and> getDate (- 62135596800000) = 1 \<and> getDay (- 62135596800000) = 1
   \<and> getCalendarWeek (- 62135596800000) = - 99136
   \<and> iso_week_spec (- 62135596800000) = 1"
  by code_simp

section \<open>The dates of the week\<close>

lemma setDate_getDate_same: "setDate t (getDate t) = t"
  using setDate_getDate [of t 0] by simp

lemma weekDates_loop_closed:
  "weekDates_loop m 0 [] = map (\<lambda>i. m + i * msPerDay) [0, 1, 2, 3, 4]"
  by (simp add: weekDates_loop.simps setDate_getDate setDate_getDate_same Let_def)

lemma Day_add_one_day: "Day (t + msPerDay) = Day t + 1"
  using Day_add_days [of t 1] by simp

lemma getWeekDates_closed:
  "getWeekDates weekType now = map (\<lambda>i. monday_of weekType now + i * msPerDay) [0, 1, 2, 3, 4]"
proof -
  have a: "(if getDay now = 0 then - 6 else 1 - getDay now) = 1 - isoDayNumber now"
    by (simp add: getDay_def isoDayNumber_def)
  have b: "setDate now (getDate now + (1 - isoDayNumber now)) = now + (1 - isoDayNumber now) * msPerDay"
    by (rule setDate_getDate)
  have c: "setDate t (getDate t + 7) = t + 7 * msPerDay" for t
    by (rule setDate_getDate)
  show ?thesis
    unfolding getWeekDates_def Let_def a b c weekDates_loop_closed monday_of_def
    by (simp add: algebra_simps)
qed

lemma WeekDay_monday_of: "WeekDay (monday_of weekType now) = 1"
proof -
  define x where "x = Day now + 4"
  have i: "isoDayNumber now = (if x mod 7 = 0 then 7 else x mod 7)"
    by (simp add: isoDayNumber_def WeekDay_def x_def)
  have x: "x = 7 * (x div 7) + x mod 7" by simp
  have d: "Day (monday_of weekType now) + 4 = x + 1 - isoDayNumber now + (if weekType = ''next'' then 7 else 0)"
    unfolding monday_of_def Day_add_days x_def by simp
  have "(x + 1 - isoDayNumber now + (if weekType = ''next'' then 7 else 0)) mod 7 = 1"
  proof -
    have "x + 1 - isoDayNumber now + (if weekType = ''next'' then 7 else 0)
          = 1 + 7 * (x div 7 + (if x mod 7 = 0 then - 1 else 0) + (if weekType = ''next'' then 1 else 0))"
      using minus_mod_eq_mult_div [of x 7] unfolding i by (auto simp add: algebra_simps)
    then show ?thesis by (simp only: mod_mult_self2) simp
  qed
  then show ?thesis unfolding WeekDay_def d .
qed

text \<open>
  C2. For every clock reading and every selector, \<open>getWeekDates\<close> returns five dates;
  the first is a Monday; each date is the first plus 0, 1, 2, 3, 4 days, so the five are
  consecutive calendar days; and the Monday returned for \<^verbatim>\<open>'next'\<close> is exactly 7 days
  after the Monday returned for \<^verbatim>\<open>'current'\<close> at the same clock reading.
\<close>

theorem getWeekDates_five_days_from_Monday:
  "length (getWeekDates weekType now) = 5
   \<and> getDay (getWeekDates weekType now ! 0) = 1
   \<and> getWeekDates weekType now
       = map (\<lambda>i. getWeekDates weekType now ! 0 + i * msPerDay) [0, 1, 2, 3, 4]
   \<and> map Day (getWeekDates weekType now)
       = map (\<lambda>i. Day (getWeekDates weekType now ! 0) + i) [0, 1, 2, 3, 4]
   \<and> getWeekDates ''next'' now ! 0 = getWeekDates ''current'' now ! 0 + 7 * msPerDay
   \<and> Day (getWeekDates ''next'' now ! 0) = Day (getWeekDates ''current'' now ! 0) + 7"
proof -
  have h: "getWeekDates w now ! 0 = monday_of w now" for w
    by (simp add: getWeekDates_closed)
  have 1: "length (getWeekDates weekType now) = 5" by (simp add: getWeekDates_closed)
  have 2: "getDay (getWeekDates weekType now ! 0) = 1"
    unfolding h getDay_def by (rule WeekDay_monday_of)
  have 3: "getWeekDates weekType now
       = map (\<lambda>i. getWeekDates weekType now ! 0 + i * msPerDay) [0, 1, 2, 3, 4]"
    unfolding h by (rule getWeekDates_closed)
  have 4: "map Day (getWeekDates weekType now)
       = map (\<lambda>i. Day (getWeekDates weekType now ! 0) + i) [0, 1, 2, 3, 4]"
    unfolding h by (simp add: getWeekDates_closed Day_add_days Day_add_one_day)
  have 5: "getWeekDates ''next'' now ! 0 = getWeekDates ''current'' now ! 0 + 7 * msPerDay"
    unfolding h by (simp add: monday_of_def algebra_simps)
  have 6: "Day (getWeekDates ''next'' now ! 0) = Day (getWeekDates ''current'' now ! 0) + 7"
    unfolding 5 by (rule Day_add_days)
  from 1 2 3 4 5 6 show ?thesis by blast
qed

text \<open>
  C9. The claim: a selector other than \<^verbatim>\<open>'current'\<close> and \<^verbatim>\<open>'next'\<close> makes
  \<open>getWeekDates\<close> fail with an InvalidArgument error. The function checks nothing but
  \<^verbatim>\<open>weekType === 'next'\<close>: for the selector \<^verbatim>\<open>'weekly'\<close> on Monday 1 January 2024
  it returns the five dates of the current week.
\<close>

theorem getWeekDates_unrecognized_selector:
  "getWeekDates ''weekly'' 1704067200000
     = [1704067200000, 1704153600000, 1704240000000, 1704326400000, 1704412800000]
   \<and> getWeekDates ''weekly'' 1704067200000 = getWeekDates ''current'' 1704067200000"
  by code_simp

text \<open>
  C9, as amended: \<open>getWeekDates\<close> raises no error; for every selector other than
  \<^verbatim>\<open>'next'\<close>, recognized or not, it returns the five dates it returns for
  \<^verbatim>\<open>'current'\<close>.
\<close>

theorem getWeekDates_any_other_selector:
  "weekType \<noteq> ''next'' \<Longrightarrow>
     getWeekDates weekType now = getWeekDates ''current'' now
     \<and> length (getWeekDates weekType now) = 5"
  by (simp add: getWeekDates_closed monday_of_def)

theorem getWeekDates_any_other_selector_witness:
  "''weekly'' \<noteq> ''next''
   \<and> getWeekDates ''weekly'' 0 = getWeekDates ''current'' 0
   \<and> length (getWeekDates ''weekly'' 0) = 5"
proof -
  have n: "''weekly'' \<noteq> ''next''" by simp
  show ?thesis using n getWeekDates_any_other_selector [OF n, of 0] by blast
qed

section \<open>The pickup list\<close>

lemma upt_5: "[0..<5] = [0, 1, 2, 3, 4]"
  by (simp add: upt_rec)

lemma less_5_cases: "i < (5::nat) \<Longrightarrow> i = 0 \<or> i = 1 \<or> i = 2 \<or> i = 3 \<or> i = 4"
  by arith

lemma pickup_forEach_closed:
  assumes "ids = drop n allIds"
  shows "pickup_forEach weekDates selectedDays ids n acc
     = acc @ map (\<lambda>k. bullet @ '' '' @ dayNames ! k @ '', '' @ formatDate (weekDates ! k)
                     @ '' um '' @ ToString (selectedDays (allIds ! k @ ''Time'')) @ '' Uhr'')
               (filter (\<lambda>k. truthy (selectedDays (allIds ! k))
                            \<and> truthy (selectedDays (allIds ! k @ ''Time'')))
                  [n..<n + length ids])"
  using assms
proof (induction ids arbitrary: n acc)
  case Nil
  show ?case by simp
next
  case (Cons dayId rest)
  have n: "n < length allIds" using Cons.prems
    by (metis drop_all list.distinct(1) not_le)
  have d: "dayId = allIds ! n" and r: "rest = drop (Suc n) allIds"
    using Cons.prems n by (simp_all add: Cons_nth_drop_Suc [symmetric])
  have u: "[n..<n + length (dayId # rest)] = n # [Suc n..<Suc n + length rest]"
  proof -
    have "n < n + length (dayId # rest)" by simp
    then have "[n..<n + length (dayId # rest)] = n # [Suc n..<n + length (dayId # rest)]"
      by (rule upt_conv_Cons)
    moreover have "n + length (dayId # rest) = Suc n + length rest" by simp
    ultimately show ?thesis by (simp only:)
  qed
  show ?case
    unfolding u using Cons.IH [OF r] by (simp add: d Let_def)
qed

lemma generatePickupList_closed:
  "generatePickupList weekType selectedDays now
     = map (pickup_line weekType selectedDays now) (filter (selected_with_time selectedDays) [0..<5])"
proof -
  have l: "length dayIds = 5" by (simp add: dayIds_def)
  have "pickup_forEach (getWeekDates weekType now) selectedDays dayIds 0 []
     = map (pickup_line weekType selectedDays now) (filter (selected_with_time selectedDays) [0..<0 + length dayIds])"
    by (subst pickup_forEach_closed [where allIds = dayIds])
       (simp_all add: pickup_line_def [abs_def] selected_with_time_def [abs_def])
  then show ?thesis by (simp add: generatePickupList_def l)
qed

lemma pickup_line_start:
  "i < 5 \<Longrightarrow> take 6 (pickup_line weekType selectedDays now i) = bullet @ '' '' @ take 2 (dayNames ! i)"
  by (auto dest!: less_5_cases simp add: pickup_line_def bullet_def dayNames_def)

lemma pickup_line_inj:
  assumes "i < 5" "j < 5"
    and "pickup_line weekType selectedDays now i = pickup_line weekType selectedDays now j"
  shows "i = j"
proof -
  have "take 6 (pickup_line weekType selectedDays now i) = take 6 (pickup_line weekType selectedDays now j)"
    using assms(3) by simp
  then have "take 2 (dayNames ! i) = take 2 (dayNames ! j)"
    by (simp add: pickup_line_start assms(1,2))
  then show ?thesis
    using less_5_cases [OF assms(1)] less_5_cases [OF assms(2)]
    by (auto simp add: dayNames_def)
qed

lemma valid_time_not_empty: "valid_time t \<Longrightarrow> t \<noteq> []"
  by (auto simp add: valid_time_def)

lemma qualifies_selected_with_time:
  "qualifies selectedDays i \<Longrightarrow> selected_with_time selectedDays i"
  by (auto simp add: qualifies_def selected_with_time_def valid_time_not_empty
      split: jsval.splits)

text \<open>
  C4. The claim: \<open>generatePickupList\<close> emits a line for each qualifying weekday, leaves
  out the others and returns the empty list when no weekday qualifies, a weekday
  qualifying when it is selected with a non-empty valid time. The function tests the time
  only for being non-empty: with Tuesday selected and the time text "25:99" no weekday
  qualifies, and the list holds Tuesday's line.
\<close>

theorem generatePickupList_line_for_invalid_time:
  "filter (qualifies tuesday_malformed) [0..<5] = []
   \<and> generatePickupList ''current'' tuesday_malformed 1704067200000
       = [bullet @ '' Dienstag, 2. Januar 2024 um 25:99 Uhr'']"
proof -
  have "\<forall>i<5. \<not> qualifies tuesday_malformed i"
    by (auto dest!: less_5_cases
        simp add: qualifies_def tuesday_malformed_def dayIds_def valid_time_def)
  then have "filter (qualifies tuesday_malformed) [0..<5] = []"
    by (simp add: filter_empty_conv)
  moreover have "generatePickupList ''current'' tuesday_malformed 1704067200000
       = [bullet @ '' Dienstag, 2. Januar 2024 um 25:99 Uhr'']"
    by code_simp
  ultimately show ?thesis by simp
qed

text \<open>
  C4, as amended: for every selector, pickup object and clock reading,
  \<open>generatePickupList\<close> goes through the weekdays Monday .. Friday in that order and
  returns, for exactly the weekdays that are selected with a non-empty time string
  (valid or not) and in that order, the line
  "\<bullet> {WeekdayName}, {formatDate(date)} um {time} Uhr" with the weekday's date from
  \<open>getWeekDates\<close>. When no weekday is selected with a non-empty time the result is the
  empty list; when Monday is, its line comes first; when only Monday is, the result is
  that one line. Every qualifying weekday has its line, and where every weekday selected
  with a non-empty time has a valid one, the lines are those of the qualifying weekdays.
\<close>

theorem generatePickupList_lines:
  "generatePickupList weekType selectedDays now
     = map (pickup_line weekType selectedDays now)
         (filter (selected_with_time selectedDays) [0..<5])
   \<and> ((\<forall>i<5. \<not> selected_with_time selectedDays i)
        \<longrightarrow> generatePickupList weekType selectedDays now = [])
   \<and> (selected_with_time selectedDays 0
        \<longrightarrow> hd (generatePickupList weekType selectedDays now)
              = pickup_line weekType selectedDays now 0)
   \<and> (selected_with_time selectedDays 0
          \<and> (\<forall>i. 1 \<le> i \<and> i < 5 \<longrightarrow> \<not> selected_with_time selectedDays i)
        \<longrightarrow> generatePickupList weekType selectedDays now
              = [pickup_line weekType selectedDays now 0])
   \<and> (\<forall>i<5. qualifies selectedDays i
        \<longrightarrow> pickup_line weekType selectedDays now i
              \<in> set (generatePickupList weekType selectedDays now))
   \<and> ((\<forall>i<5. selected_with_time selectedDays i \<longrightarrow> qualifies selectedDays i)
        \<longrightarrow> generatePickupList weekType selectedDays now
              = map (pickup_line weekType selectedDays now)
                  (filter (qualifies selectedDays) [0..<5]))"
proof -
  have 1: "generatePickupList weekType selectedDays now
     = map (pickup_line weekType selectedDays now)
         (filter (selected_with_time selectedDays) [0..<5])"
    by (rule generatePickupList_closed)
  have 2: "(\<forall>i<5. \<not> selected_with_time selectedDays i)
        \<longrightarrow> generatePickupList weekType selectedDays now = []"
    unfolding 1 upt_5 by simp
  have 3: "selected_with_time selectedDays 0
        \<longrightarrow> hd (generatePickupList weekType selectedDays now)
              = pickup_line weekType selectedDays now 0"
    unfolding 1 upt_5 by simp
  have 4: "selected_with_time selectedDays 0
          \<and> (\<forall>i. 1 \<le> i \<and> i < 5 \<longrightarrow> \<not> selected_with_time selectedDays i)
        \<longrightarrow> generatePickupList weekType selectedDays now
              = [pickup_line weekType selectedDays now 0]"
    unfolding 1 upt_5 by simp
  have 5: "\<forall>i<5. qualifies selectedDays i
        \<longrightarrow> pickup_line weekType selectedDays now i
              \<in> set (generatePickupList weekType selectedDays now)"
    unfolding 1 using qualifies_selected_with_time [of selectedDays] by auto
  have 6: "(\<forall>i<5. selected_with_time selectedDays i \<longrightarrow> qualifies selectedDays i)
        \<longrightarrow> generatePickupList weekType selectedDays now
              = map (pickup_line weekType selectedDays now)
                  (filter (qualifies selectedDays) [0..<5])"
  proof
    assume a: "\<forall>i<5. selected_with_time selectedDays i \<longrightarrow> qualifies selectedDays i"
    have "filter (selected_with_time selectedDays) [0..<5] = filter (qualifies selectedDays) [0..<5]"
      using a qualifies_selected_with_time [of selectedDays]
      by (intro filter_cong) auto
    then show "generatePickupList weekType selectedDays now
              = map (pickup_line weekType selectedDays now)
                  (filter (qualifies selectedDays) [0..<5])"
      unfolding 1 by simp
  qed
  from 1 2 3 4 5 6 show ?thesis by (intro conjI)
qed

theorem generatePickupList_lines_witness:
  "filter (selected_with_time (\<lambda>k. JUndefined)) [0..<5] = []
   \<and> generatePickupList ''current'' (\<lambda>k. JUndefined) 1704067200000 = []
   \<and> filter (selected_with_time monday_only) [0..<5] = [0]
   \<and> filter (qualifies monday_only) [0..<5] = [0]
   \<and> hd (generatePickupList ''current'' monday_only 1704067200000)
       = pickup_line ''current'' monday_only 1704067200000 0
   \<and> generatePickupList ''current'' monday_only 1704067200000
       = [pickup_line ''current'' monday_only 1704067200000 0]
   \<and> generatePickupList ''current'' monday_only 1704067200000
       = map (pickup_line ''current'' monday_only 1704067200000)
           (filter (qualifies monday_only) [0..<5])"
proof -
  have e: "\<forall>i<5. \<not> selected_with_time (\<lambda>k. JUndefined) i"
    by (simp add: selected_with_time_def)
  have m0: "selected_with_time monday_only 0"
    by (simp add: selected_with_time_def monday_only_def dayIds_def)
  have m: "\<forall>i. 1 \<le> i \<and> i < 5 \<longrightarrow> \<not> selected_with_time monday_only i"
    by (auto dest!: less_5_cases simp add: selected_with_time_def monday_only_def dayIds_def)
  have q0: "qualifies monday_only 0"
    by (simp add: qualifies_def monday_only_def dayIds_def valid_time_def isDigit_def)
  have q: "\<forall>i<5. selected_with_time monday_only i \<longrightarrow> qualifies monday_only i"
  proof (intro allI impI)
    fix i :: nat
    assume "i < 5" "selected_with_time monday_only i"
    then have "i = 0" using m by (cases "i = 0") auto
    then show "qualifies monday_only i" using q0 by simp
  qed
  have f: "filter (selected_with_time (\<lambda>k. JUndefined)) [0..<5] = []"
    using e by (simp add: filter_empty_conv)
  have g: "filter (selected_with_time monday_only) [0..<5] = [0]"
    using m0 m unfolding upt_5 by simp
  have nq: "\<forall>i. 1 \<le> i \<and> i < 5 \<longrightarrow> \<not> qualifies monday_only i"
    using m qualifies_selected_with_time [of monday_only] by blast
  have g': "filter (qualifies monday_only) [0..<5] = [0]"
    using q0 nq unfolding upt_5 by simp
  show ?thesis
    using e m0 m q f g g'
      generatePickupList_lines [of "''current''" "\<lambda>k. JUndefined" 1704067200000]
      generatePickupList_lines [of "''current''" monday_only 1704067200000]
    by blast
qed

text \<open>The line of the repository's example: Monday 1 January 2024 at 16:00.\<close>

lemma generatePickupList_monday_only:
  "generatePickupList ''current'' monday_only 1704067200000
     = [bullet @ '' Montag, 1. Januar 2024 um 16:00 Uhr'']"
  by code_simp

text \<open>
  C5. The claim: a selected weekday whose time string is not empty but malformed is
  left out of the pickup list. \<open>generatePickupList\<close> tests the time only for being
  non-empty: with Monday selected and the time text "4 pm", which the time pattern
  rejects, the list holds Monday's line with that text.
\<close>

theorem generatePickupList_malformed_time:
  "monday_malformed ''monday'' = JBool True
   \<and> monday_malformed ''mondayTime'' = JString ''4 pm''
   \<and> \<not> valid_time ''4 pm''
   \<and> generatePickupList ''current'' monday_malformed 1704067200000
       = [bullet @ '' Montag, 1. Januar 2024 um 4 pm Uhr'']"
  by code_simp

text \<open>
  C5, as amended: a weekday contributes its line to the pickup list if and only if its
  checkbox value is truthy and its time value is truthy (a non-empty string); the syntax
  of the time string plays no part, and the text is copied into the line as it is.
\<close>

theorem pickup_line_contributed:
  "i < 5 \<Longrightarrow>
     pickup_line weekType selectedDays now i \<in> set (generatePickupList weekType selectedDays now)
       \<longleftrightarrow> truthy (selectedDays (dayIds ! i)) \<and> truthy (selectedDays (dayIds ! i @ ''Time''))"
proof -
  assume i: "i < 5"
  have "pickup_line weekType selectedDays now i \<in> set (generatePickupList weekType selectedDays now)
        \<longleftrightarrow> (\<exists>j<5. selected_with_time selectedDays j
               \<and> pickup_line weekType selectedDays now j = pickup_line weekType selectedDays now i)"
    unfolding generatePickupList_closed by (auto simp add: image_iff)
  also have "\<dots> \<longleftrightarrow> selected_with_time selectedDays i"
    using i pickup_line_inj [of _ i weekType selectedDays now] by auto
  finally show ?thesis by (simp add: selected_with_time_def)
qed

theorem pickup_line_contributed_witness:
  "(2::nat) < 5
   \<and> pickup_line ''current'' monday_malformed 1704067200000 0
        \<in> set (generatePickupList ''current'' monday_malformed 1704067200000)
   \<and> pickup_line ''current'' monday_malformed 1704067200000 2
        \<notin> set (generatePickupList ''current'' monday_malformed 1704067200000)"
  using pickup_line_contributed [of 0 "''current''" monday_malformed 1704067200000]
    pickup_line_contributed [of 2 "''current''" monday_malformed 1704067200000]
  by (simp add: monday_malformed_def dayIds_def)

section \<open>The mail-handoff link\<close>

lemma less_16_cases:
  "n < (16::nat) \<Longrightarrow> n \<in> {0, 1, 2, 3, 4, 5, 6, 7, 8, 9, 10, 11, 12, 13, 14, 15}"
  by simp arith

lemma hexValue_hexDigit: "n < 16 \<Longrightarrow> hexValue (hexDigit n) = Some n"
  by (drule less_16_cases) (auto simp add: hexDigit_def hexValue_def)

lemma isUpperHex_hexDigit: "n < 16 \<Longrightarrow> isUpperHex (hexDigit n)"
  by (drule less_16_cases) (auto simp add: hexDigit_def isUpperHex_def)

lemma uriUnreserved_hexDigit: "n < 16 \<Longrightarrow> uriUnreserved (hexDigit n)"
  by (drule less_16_cases) (auto simp add: hexDigit_def uriUnreserved_def)

lemma of_char_nibbles:
  "(of_char c :: nat) div 16 < 16" "(of_char c :: nat) mod 16 < 16"
  "char_of (16 * ((of_char c :: nat) div 16) + of_char c mod 16) = c"
proof -
  have "(of_char c :: nat) mod 256 < 256" by simp
  then have "(of_char c :: nat) < 256" by (simp only: of_char_mod_256)
  then show "(of_char c :: nat) div 16 < 16" by arith
  show "(of_char c :: nat) mod 16 < 16" by simp
  show "char_of (16 * ((of_char c :: nat) div 16) + of_char c mod 16) = c" by simp
qed

lemma percent_not_unreserved: "\<not> uriUnreserved CHR ''%''"
  by (simp add: uriUnreserved_def)

lemma percent_decode_plain:
  "c \<noteq> CHR ''%'' \<Longrightarrow> percent_decode (c # cs) = map_option ((#) c) (percent_decode cs)"
  by (cases "(c # cs)" rule: percent_decode.cases) simp_all

lemma percent_decode_escape:
  "percent_decode (CHR ''%'' # hexDigit a # hexDigit b # rest)
     = (case (hexValue (hexDigit a), hexValue (hexDigit b)) of
          (Some x, Some y) \<Rightarrow> map_option ((#) (char_of (16 * x + y))) (percent_decode rest)
        | _ \<Rightarrow> None)"
  by simp

lemma uri_escape_simps [simp]:
  "uri_escape [] = []" "uri_escape (c # cs) = escape_byte c @ uri_escape cs"
  by (simp_all add: uri_escape_def)

lemma percent_decode_uri_escape: "percent_decode (uri_escape s) = Some s"
proof (induction s)
  case Nil
  show ?case by simp
next
  case (Cons c cs)
  show ?case
  proof (cases "uriUnreserved c")
    case True
    then have "c \<noteq> CHR ''%''" using percent_not_unreserved by auto
    then show ?thesis using True Cons.IH by (simp add: escape_byte_def percent_decode_plain)
  next
    case False
    then show ?thesis
      using Cons.IH
      by (simp add: escape_byte_def hexValue_hexDigit of_char_nibbles
          del: percent_decode.simps add: percent_decode_escape)
  qed
qed

lemma percent_encoded_plain:
  "c \<noteq> CHR ''%'' \<Longrightarrow> percent_encoded (c # cs) = (uriUnreserved c \<and> percent_encoded cs)"
  by (cases "(c # cs)" rule: percent_encoded.cases) simp_all

lemma percent_encoded_uri_escape: "percent_encoded (uri_escape s)"
proof (induction s)
  case Nil
  show ?case by simp
next
  case (Cons c cs)
  show ?case
  proof (cases "uriUnreserved c")
    case True
    then have "c \<noteq> CHR ''%''" using percent_not_unreserved by auto
    then show ?thesis using True Cons.IH by (simp add: escape_byte_def percent_encoded_plain)
  next
    case False
    then show ?thesis
      using Cons.IH by (simp add: escape_byte_def isUpperHex_hexDigit of_char_nibbles)
  qed
qed

lemma uri_escape_chars:
  "c \<in> set (uri_escape s) \<Longrightarrow> uriUnreserved c \<or> c = CHR ''%''"
  by (induction s)
     (auto simp add: escape_byte_def uriUnreserved_hexDigit of_char_nibbles split: if_splits)

lemma uri_escape_no_delimiters:
  "CHR ''&'' \<notin> set (uri_escape s)" "CHR ''='' \<notin> set (uri_escape s)"
  "CHR ''?'' \<notin> set (uri_escape s)" "CHR ''#'' \<notin> set (uri_escape s)"
  "CHR '' '' \<notin> set (uri_escape s)" "CHR 0x0A \<notin> set (uri_escape s)"
  using uri_escape_chars [of _ s] by (auto simp add: uriUnreserved_def)

text \<open>
  \<open>encodeURIComponent\<close> throws exactly on the strings with an unpaired surrogate, and
  returns the escaped bytes of every other string.
\<close>

lemma encodeURIComponent_eq:
  "encodeURIComponent s = (if has_lone_surrogate s then Inl URIError else Inr (uri_escape s))"
proof (induction s)
  case Nil
  show ?case by simp
next
  case (Cons c cs)
  show ?case
  proof (cases "encodeURIComponent cs")
    case (Inl e)
    then show ?thesis using Cons.IH by (cases e) (auto split: if_splits)
  next
    case (Inr r)
    then show ?thesis using Cons.IH by (auto split: if_splits)
  qed
qed

lemma createMailtoLink_eq:
  "createMailtoLink recipient subj bdy ccEmail
     = (if has_lone_surrogate ccEmail \<or> has_lone_surrogate subj \<or> has_lone_surrogate bdy
        then Inl URIError
        else Inr (mailto_text recipient subj bdy ccEmail))"
  by (cases "ccEmail = []")
     (simp_all add: createMailtoLink_def encodeURIComponent_eq mailto_text_def)

lemma split_on_not_Nil: "split_on c xs \<noteq> []"
  by (induction xs) (auto split: list.splits)

lemma split_on_absent: "c \<notin> set a \<Longrightarrow> split_on c a = [a]"
  by (induction a) auto

lemma split_on_first: "c \<notin> set a \<Longrightarrow> split_on c (a @ c # b) = a # split_on c b"
  by (induction a) (auto split: list.splits simp add: split_on_not_Nil)

lemma uri_query_mailto:
  assumes "CHR ''?'' \<notin> set recipient" "CHR ''#'' \<notin> set recipient" "CHR ''#'' \<notin> set q"
  shows "uri_query (''mailto:'' @ recipient @ CHR ''?'' # q) = Some q"
proof -
  have "\<forall>c \<in> set (''mailto:'' @ recipient @ CHR ''?'' # q). c \<noteq> CHR ''#''"
    using assms(2,3) by auto
  then have t: "takeWhile (\<lambda>c. c \<noteq> CHR ''#'') (''mailto:'' @ recipient @ CHR ''?'' # q)
                  = ''mailto:'' @ recipient @ CHR ''?'' # q"
    by (simp only: takeWhile_eq_all_conv)
  have "dropWhile (\<lambda>c. c \<noteq> CHR ''?'') ((''mailto:'' @ recipient) @ CHR ''?'' # q)
          = dropWhile (\<lambda>c. c \<noteq> CHR ''?'') (''mailto:'' @ recipient) @ CHR ''?'' # q"
    by (rule dropWhile_append3) simp
  moreover have "dropWhile (\<lambda>c. c \<noteq> CHR ''?'') (''mailto:'' @ recipient) = []"
    using assms(1) by (auto simp add: dropWhile_eq_Nil_conv)
  ultimately have "dropWhile (\<lambda>c. c \<noteq> CHR ''?'') (''mailto:'' @ recipient @ CHR ''?'' # q)
          = CHR ''?'' # q"
    by simp
  then show ?thesis unfolding uri_query_def Let_def t by simp
qed

lemma split_on_two:
  assumes "c \<notin> set a" "c \<notin> set b"
  shows "split_on c (a @ c # b) = [a, b]"
  by (simp only: split_on_first [OF assms(1)] split_on_absent [OF assms(2)])

lemma split_on_three:
  assumes "c \<notin> set a" "c \<notin> set b" "c \<notin> set d"
  shows "split_on c (a @ c # b @ c # d) = [a, b, d]"
  by (simp only: split_on_first [OF assms(1)] split_on_first [OF assms(2)]
        split_on_absent [OF assms(3)])

lemma mailto_text_fields:
  assumes "CHR ''?'' \<notin> set recipient" "CHR ''#'' \<notin> set recipient"
  shows "uri_query (mailto_text recipient subj bdy ccEmail)
           = Some (''subject='' @ uri_escape subj @ ''&body='' @ uri_escape bdy
                 @ (if ccEmail \<noteq> [] then ''&cc='' @ uri_escape ccEmail else []))"
    and "split_on CHR ''&'' (''subject='' @ uri_escape subj @ ''&body='' @ uri_escape bdy
                 @ (if ccEmail \<noteq> [] then ''&cc='' @ uri_escape ccEmail else []))
           = [''subject='' @ uri_escape subj, ''body='' @ uri_escape bdy]
               @ (if ccEmail \<noteq> [] then [''cc='' @ uri_escape ccEmail] else [])"
proof -
  have n: "CHR ''#'' \<notin> set (''subject='' @ uri_escape subj @ ''&body='' @ uri_escape bdy
                 @ (if ccEmail \<noteq> [] then ''&cc='' @ uri_escape ccEmail else []))"
    by (simp add: uri_escape_no_delimiters)
  show "uri_query (mailto_text recipient subj bdy ccEmail)
           = Some (''subject='' @ uri_escape subj @ ''&body='' @ uri_escape bdy
                 @ (if ccEmail \<noteq> [] then ''&cc='' @ uri_escape ccEmail else []))"
    using uri_query_mailto [OF assms n] by (simp add: mailto_text_def)
  have s: "CHR ''&'' \<notin> set (''subject='' @ uri_escape subj)"
    and b: "CHR ''&'' \<notin> set (''body='' @ uri_escape bdy)"
    and c: "CHR ''&'' \<notin> set (''cc='' @ uri_escape ccEmail)"
    by (simp_all add: uri_escape_no_delimiters)
  show "split_on CHR ''&'' (''subject='' @ uri_escape subj @ ''&body='' @ uri_escape bdy
                 @ (if ccEmail \<noteq> [] then ''&cc='' @ uri_escape ccEmail else []))
           = [''subject='' @ uri_escape subj, ''body='' @ uri_escape bdy]
               @ (if ccEmail \<noteq> [] then [''cc='' @ uri_escape ccEmail] else [])"
  proof (cases "ccEmail = []")
    case True
    then show ?thesis using split_on_two [OF s b] by (simp del: split_on.simps)
  next
    case False
    then show ?thesis using split_on_three [OF s b c] by (simp del: split_on.simps)
  qed
qed

lemma query_param_mailto_text:
  assumes "CHR ''?'' \<notin> set recipient" "CHR ''#'' \<notin> set recipient"
  shows "query_param (mailto_text recipient subj bdy ccEmail) ''subject''
           = Some (uri_escape subj)"
    and "query_param (mailto_text recipient subj bdy ccEmail) ''body''
           = Some (uri_escape bdy)"
    and "query_param (mailto_text recipient subj bdy ccEmail) ''cc''
           = (if ccEmail \<noteq> [] then Some (uri_escape ccEmail) else None)"
  unfolding query_param_def mailto_text_fields [OF assms] option.case
  by (simp_all add: field_name_def field_value_def)

text \<open>
  C6, as amended: for every recipient with neither a question mark nor a number sign,
  and every subject, body and parent e-mail without an unpaired surrogate, a link is
  generated; it begins with "mailto:{recipient}", has a \<^verbatim>\<open>cc\<close> parameter if and only
  if the parent e-mail is not empty, and percent-decoding its \<^verbatim>\<open>subject\<close> and
  \<^verbatim>\<open>body\<close> parameters gives back the subject and the body.
\<close>

theorem createMailtoLink_parameters:
  assumes "CHR ''?'' \<notin> set recipient" and "CHR ''#'' \<notin> set recipient"
    and "\<not> has_lone_surrogate subj" and "\<not> has_lone_surrogate bdy"
    and "\<not> has_lone_surrogate ccEmail"
  shows "\<exists>link. createMailtoLink recipient subj bdy ccEmail = Inr link
         \<and> take (length (''mailto:'' @ recipient)) link = ''mailto:'' @ recipient
         \<and> (query_param link ''cc'' \<noteq> None \<longleftrightarrow> ccEmail \<noteq> [])
         \<and> Option.bind (query_param link ''subject'') percent_decode = Some subj
         \<and> Option.bind (query_param link ''body'') percent_decode = Some bdy"
proof -
  have e: "createMailtoLink recipient subj bdy ccEmail
             = Inr (mailto_text recipient subj bdy ccEmail)"
    using assms(3-5) by (simp add: createMailtoLink_eq)
  have t: "take (length (''mailto:'' @ recipient)) (mailto_text recipient subj bdy ccEmail)
             = ''mailto:'' @ recipient"
    by (simp add: mailto_text_def)
  show ?thesis
    using e t query_param_mailto_text [OF assms(1,2), of subj bdy ccEmail]
    by (simp add: percent_decode_uri_escape)
qed

theorem createMailtoLink_parameters_witness:
  "CHR ''?'' \<notin> set ''test@beb-norderstedt.de''
   \<and> CHR ''#'' \<notin> set ''test@beb-norderstedt.de''
   \<and> \<not> has_lone_surrogate ''A & B'' \<and> \<not> has_lone_surrogate ''x=1?''
   \<and> \<not> has_lone_surrogate ''p@example.com''
   \<and> (\<exists>link. createMailtoLink ''test@beb-norderstedt.de'' ''A & B'' ''x=1?'' ''p@example.com''
                 = Inr link
         \<and> take (length ''mailto:test@beb-norderstedt.de'') link
               = ''mailto:test@beb-norderstedt.de''
         \<and> query_param link ''cc'' \<noteq> None
         \<and> Option.bind (query_param link ''subject'') percent_decode = Some ''A & B''
         \<and> Option.bind (query_param link ''body'') percent_decode = Some ''x=1?'')"
proof -
  have h: "CHR ''?'' \<notin> set ''test@beb-norderstedt.de''"
    "CHR ''#'' \<notin> set ''test@beb-norderstedt.de''"
    by simp_all
  have w: "\<not> has_lone_surrogate ''A & B''" "\<not> has_lone_surrogate ''x=1?''"
    "\<not> has_lone_surrogate ''p@example.com''"
    by (simp_all add: surrogate_at_def)
  show ?thesis
    using h w createMailtoLink_parameters [OF h w]
    by simp
qed

text \<open>A link with reserved characters in its subject and body, written out.\<close>

lemma createMailtoLink_example:
  "createMailtoLink ''test@beb-norderstedt.de'' ''A & B'' ''x=1?'' ''p@example.com''
     = Inr ''mailto:test@beb-norderstedt.de?subject=A%20%26%20B&body=x%3D1%3F&cc=p%40example.com''"
  by code_simp

text \<open>
  C6. The claim: for every recipient, subject, body and parent e-mail the link has a
  \<^verbatim>\<open>cc=\<close> segment if and only if the parent e-mail is not empty, and its
  \<^verbatim>\<open>subject\<close> and \<^verbatim>\<open>body\<close> parameters decode to the subject and the body. The
  recipient is copied into the link as it is. With the recipient "a@b.de?cc=x@y.de" and
  no parent e-mail the link has a \<^verbatim>\<open>cc\<close> parameter, and no \<^verbatim>\<open>subject\<close>
  parameter to decode. With the recipient "a#b@c.de" everything after the number sign is
  the fragment: the link has no query and so no parameter at all. With an unpaired
  surrogate as the subject there is no link: \<open>createMailtoLink\<close> throws.
\<close>

theorem createMailtoLink_recipient_with_query:
  "createMailtoLink ''a@b.de?cc=x@y.de'' ''s'' ''t'' []
     = Inr ''mailto:a@b.de?cc=x@y.de?subject=s&body=t''
   \<and> query_param ''mailto:a@b.de?cc=x@y.de?subject=s&body=t'' ''cc'' = Some ''x@y.de?subject=s''
   \<and> query_param ''mailto:a@b.de?cc=x@y.de?subject=s&body=t'' ''subject'' = None
   \<and> createMailtoLink ''a#b@c.de'' ''s'' ''t'' [] = Inr ''mailto:a#b@c.de?subject=s&body=t''
   \<and> uri_query ''mailto:a#b@c.de?subject=s&body=t'' = None
   \<and> query_param ''mailto:a#b@c.de?subject=s&body=t'' ''subject'' = None
   \<and> query_param ''mailto:a#b@c.de?subject=s&body=t'' ''body'' = None
   \<and> createMailtoLink ''a@b.de'' [CHR 0xED, CHR 0xA0, CHR 0x80] ''t'' [] = Inl URIError"
  by code_simp

text \<open>
  C7. The claim: for every input the link has the given form, and every dynamic segment
  of it, the recipient included, is percent-encoded. The recipient is copied as it is:
  the recipient "a b@c.de" appears in the link with its space and its at sign, where
  \<open>encodeURIComponent\<close> would write "a%20b%40c.de". And with an unpaired surrogate as
  the body there is no link: \<open>createMailtoLink\<close> throws.
\<close>

theorem createMailtoLink_recipient_verbatim:
  "createMailtoLink ''a b@c.de'' ''s'' ''t'' [] = Inr ''mailto:a b@c.de?subject=s&body=t''
   \<and> encodeURIComponent ''a b@c.de'' = Inr ''a%20b%40c.de''
   \<and> \<not> percent_encoded ''a b@c.de''
   \<and> createMailtoLink ''a@b.de'' ''s'' [CHR 0xED, CHR 0xB0, CHR 0x80] [] = Inl URIError"
  by code_simp

text \<open>
  C7, as amended: for every input, \<open>createMailtoLink\<close> throws a \<^verbatim>\<open>URIError\<close> when
  the subject, the body or the parent e-mail holds an unpaired surrogate, and otherwise
  returns the link "mailto:", the recipient as given, "?subject=" and the encoded
  subject, "&body=" and the encoded body and, only when the parent e-mail is not empty,
  "&cc=" and the encoded parent e-mail. The three encoded segments are percent-encoded:
  each of their characters is an unreserved character or the percent sign of an escape,
  so no space, line break or reserved punctuation occurs in them.
\<close>

theorem createMailtoLink_encoded_segments:
  "createMailtoLink recipient subj bdy ccEmail
     = (if has_lone_surrogate ccEmail \<or> has_lone_surrogate subj \<or> has_lone_surrogate bdy
        then Inl URIError
        else Inr (''mailto:'' @ recipient @ ''?subject='' @ uri_escape subj
                    @ ''&body='' @ uri_escape bdy
                    @ (if ccEmail \<noteq> [] then ''&cc='' @ uri_escape ccEmail else [])))
   \<and> (\<forall>x. encodeURIComponent x
             = (if has_lone_surrogate x then Inl URIError else Inr (uri_escape x)))
   \<and> percent_encoded (uri_escape subj)
   \<and> percent_encoded (uri_escape bdy)
   \<and> percent_encoded (uri_escape ccEmail)
   \<and> (\<forall>c \<in> set (uri_escape subj) \<union> set (uri_escape bdy) \<union> set (uri_escape ccEmail).
         uriUnreserved c \<or> c = CHR ''%'')"
  using uri_escape_chars encodeURIComponent_eq
  by (auto simp add: createMailtoLink_eq mailto_text_def percent_encoded_uri_escape)

theorem createMailtoLink_encoded_segments_witness:
  "createMailtoLink ''a@b.de'' ''Hi there'' (''x'' @ nl @ ''y'') ''p@q.de''
     = Inr ''mailto:a@b.de?subject=Hi%20there&body=x%0Ay&cc=p%40q.de''
   \<and> encodeURIComponent ''Hi there'' = Inr ''Hi%20there''
   \<and> percent_encoded ''Hi%20there'' \<and> percent_encoded ''x%0Ay'' \<and> percent_encoded ''p%40q.de''
   \<and> list_all (\<lambda>c. uriUnreserved c \<or> c = CHR ''%'') (''Hi%20there'' @ ''x%0Ay'' @ ''p%40q.de'')"
proof -
  have e: "uri_escape ''Hi there'' = ''Hi%20there''"
    "uri_escape (''x'' @ nl @ ''y'') = ''x%0Ay''"
    "uri_escape ''p@q.de'' = ''p%40q.de''"
    by code_simp+
  have w: "has_lone_surrogate ''Hi there'' = False"
    "has_lone_surrogate (''x'' @ nl @ ''y'') = False"
    "has_lone_surrogate ''p@q.de'' = False"
    by code_simp+
  note t = createMailtoLink_encoded_segments
    [of "''a@b.de''" "''Hi there''" "''x'' @ nl @ ''y''" "''p@q.de''", unfolded e w]
  have 1: "createMailtoLink ''a@b.de'' ''Hi there'' (''x'' @ nl @ ''y'') ''p@q.de''
     = Inr ''mailto:a@b.de?subject=Hi%20there&body=x%0Ay&cc=p%40q.de''"
    using t by simp
  have "encodeURIComponent ''Hi there''
          = (if has_lone_surrogate ''Hi there'' then Inl URIError
             else Inr (uri_escape ''Hi there''))"
    using t by blast
  then have 2: "encodeURIComponent ''Hi there'' = Inr ''Hi%20there''"
    unfolding e w by simp
  have 3: "percent_encoded ''Hi%20there''" "percent_encoded ''x%0Ay''"
    "percent_encoded ''p%40q.de''"
    using t by blast+
  have 4: "list_all (\<lambda>c. uriUnreserved c \<or> c = CHR ''%'')
             (''Hi%20there'' @ ''x%0Ay'' @ ''p%40q.de'')"
    unfolding list_all_iff using t by auto
  from 1 2 3 4 show ?thesis by (intro conjI)
qed

section \<open>The generated e-mail\<close>

lemma contains_iff: "contains s t \<longleftrightarrow> (\<exists>p q. s = p @ t @ q)"
proof (induction s)
  case Nil
  show ?case by auto
next
  case (Cons x xs)
  show ?case
  proof
    assume "contains (x # xs) t"
    then consider "take (length t) (x # xs) = t" | "contains xs t" by auto
    then show "\<exists>p q. x # xs = p @ t @ q"
    proof cases
      case 1
      then have "x # xs = [] @ t @ drop (length t) (x # xs)"
        by (metis append_Nil append_take_drop_id)
      then show ?thesis by blast
    next
      case 2
      then obtain p q where "xs = p @ t @ q" using Cons.IH by auto
      then have "x # xs = (x # p) @ t @ q" by simp
      then show ?thesis by blast
    qed
  next
    assume "\<exists>p q. x # xs = p @ t @ q"
    then obtain p q where e: "x # xs = p @ t @ q" by auto
    show "contains (x # xs) t"
    proof (cases p)
      case Nil
      then have "take (length t) (x # xs) = t" using e by simp
      then show ?thesis by simp
    next
      case (Cons a p')
      then have "xs = p' @ t @ q" using e by simp
      then have "contains xs t" using Cons.IH by blast
      then show ?thesis by simp
    qed
  qed
qed

lemma contains_middle: "contains (p @ t @ q) t"
  unfolding contains_iff by blast

lemma contains_end: "contains (p @ t) t"
  using contains_middle [of p t "[]"] by simp














subsection \<open>Unpaired surrogates in the parts of the e-mail\<close>























subsection \<open>What \<open>generateEmail\<close> returns\<close>














text \<open>The week label and the pickup lines of the repository's test, on 1 January 2024.\<close>

lemma repository_test_week:
  "getWeekInfo (getWeekDates ''current'' 1704067200000 ! 0)
     = \<lparr>week = 1, year = 2024, formatted = ''KW 1/2024''\<rparr>"
  by code_simp

lemma repository_test_pickup_list:
  "generatePickupList ''current'' test_pickup 1704067200000
     = [bullet @ '' Montag, 1. Januar 2024 um 16:00 Uhr'',
        bullet @ '' Dienstag, 2. Januar 2024 um 17:00 Uhr'']"
  by code_simp

section \<open>The date argument\<close>

lemma getCalendarWeek_st_result:
  "getCalendarWeek_st date s =
     (getCalendarWeek (read_Date date s),
      s\<lparr>cells := (cells s)
             (next_ref s :=
                setDate (setHours (read_Date date s) 0 0 0 0)
                  (getDate (setHours (read_Date date s) 0 0 0 0) + 4
                     - (if getDay (setHours (read_Date date s) 0 0 0 0) = 0 then 7
                        else getDay (setHours (read_Date date s) 0 0 0 0))),
              Suc (next_ref s) :=
                new_Date (getFullYear
                  (setDate (setHours (read_Date date s) 0 0 0 0)
                    (getDate (setHours (read_Date date s) 0 0 0 0) + 4
                       - (if getDay (setHours (read_Date date s) 0 0 0 0) = 0 then 7
                          else getDay (setHours (read_Date date s) 0 0 0 0))))) 0 1),
         next_ref := Suc (Suc (next_ref s))\<rparr>)"
  by (simp add: getCalendarWeek_st_def getCalendarWeek_def alloc_Date_def read_Date_def
      write_Date_def Let_def)

lemma getCalendarWeek_st_value:
  "fst (getCalendarWeek_st date s) = getCalendarWeek (read_Date date s)"
  by (simp add: getCalendarWeek_st_result)

lemma getCalendarWeek_st_frame:
  "r < next_ref s \<Longrightarrow> read_Date r (snd (getCalendarWeek_st date s)) = read_Date r s"
  by (simp add: getCalendarWeek_st_result read_Date_def)

lemma getCalendarWeek_st_next_ref:
  "next_ref (snd (getCalendarWeek_st date s)) = Suc (Suc (next_ref s))"
  by (simp add: getCalendarWeek_st_result)

lemma getWeekInfo_st_snd:
  "snd (getWeekInfo_st date s) = snd (getCalendarWeek_st date (snd (getCalendarWeek_st date s)))"
  by (simp add: getWeekInfo_st_def Let_def split_beta)

lemma getWeekInfo_st_frame:
  assumes "r < next_ref s"
  shows "read_Date r (snd (getWeekInfo_st date s)) = read_Date r s"
proof -
  have "r < next_ref (snd (getCalendarWeek_st date s))"
    using assms by (simp add: getCalendarWeek_st_next_ref)
  then have "read_Date r (snd (getCalendarWeek_st date (snd (getCalendarWeek_st date s))))
        = read_Date r (snd (getCalendarWeek_st date s))"
    by (rule getCalendarWeek_st_frame)
  also have "\<dots> = read_Date r s" using assms by (rule getCalendarWeek_st_frame)
  finally show ?thesis by (simp add: getWeekInfo_st_snd)
qed

lemma getWeekInfo_st_value:
  assumes "date < next_ref s"
  shows "fst (getWeekInfo_st date s) = getWeekInfo (read_Date date s)"
proof -
  have a: "read_Date date (snd (getCalendarWeek_st date s)) = read_Date date s"
    using assms by (rule getCalendarWeek_st_frame)
  have "date < next_ref (snd (getCalendarWeek_st date s))"
    using assms by (simp add: getCalendarWeek_st_next_ref)
  then have b: "read_Date date (snd (getCalendarWeek_st date (snd (getCalendarWeek_st date s))))
        = read_Date date s"
    using a getCalendarWeek_st_frame by simp
  show ?thesis
    by (simp add: getWeekInfo_st_def getWeekInfo_def Let_def split_beta
        getCalendarWeek_st_value a b)
qed

text \<open>
  C10. For every store and every Date object in it, \<open>getCalendarWeek\<close>,
  \<open>getWeekInfo\<close> and \<open>formatDate\<close> leave the object they are given with the time
  value it had: the shift to Thursday is made on a copy. What they return is what the
  functions on time values return for that value.
\<close>

theorem date_argument_unchanged:
  assumes "date < next_ref s"
  shows "read_Date date (snd (getCalendarWeek_st date s)) = read_Date date s
       \<and> read_Date date (snd (getWeekInfo_st date s)) = read_Date date s
       \<and> read_Date date (snd (formatDate_st date s)) = read_Date date s
       \<and> fst (getCalendarWeek_st date s) = getCalendarWeek (read_Date date s)
       \<and> fst (getWeekInfo_st date s) = getWeekInfo (read_Date date s)
       \<and> fst (formatDate_st date s) = formatDate (read_Date date s)"
  using getCalendarWeek_st_frame [OF assms] getWeekInfo_st_frame [OF assms]
    getWeekInfo_st_value [OF assms]
  by (simp add: getCalendarWeek_st_value formatDate_st_def)

theorem date_argument_unchanged_witness:
  "(0::nat) < next_ref one_date_store
   \<and> read_Date 0 one_date_store = 1704114000000
   \<and> read_Date 0 (snd (getCalendarWeek_st 0 one_date_store)) = 1704114000000
   \<and> read_Date 0 (snd (getWeekInfo_st 0 one_date_store)) = 1704114000000
   \<and> read_Date 0 (snd (formatDate_st 0 one_date_store)) = 1704114000000"
proof -
  have h: "(0::nat) < next_ref one_date_store" by (simp add: one_date_store_def)
  have v: "read_Date 0 one_date_store = 1704114000000"
    by (simp add: one_date_store_def read_Date_def)
  show ?thesis
    using h v date_argument_unchanged [OF h] by simp
qed


text \<open>
  In the store with one Date, \<open>getCalendarWeek\<close> leaves object 0 as it was and its
  copy, object 1, at midnight of Thursday 4 January 2024.
\<close>

lemma getCalendarWeek_st_shifts_its_copy:
  "read_Date 0 (snd (getCalendarWeek_st 0 one_date_store)) = 1704114000000
   \<and> read_Date 1 (snd (getCalendarWeek_st 0 one_date_store)) = 1704326400000
   \<and> fst (getCalendarWeek_st 0 one_date_store) = 1"
proof -
  have g: "getDay (setHours 1704114000000 0 0 0 0) = 1" by code_simp
  have a: "setDate (setHours 1704114000000 0 0 0 0)
             (3 + getDate (setHours 1704114000000 0 0 0 0)) = 1704326400000"
    by code_simp
  have b: "getCalendarWeek 1704114000000 = 1" by code_simp
  show ?thesis
    unfolding getCalendarWeek_st_result
    by (simp add: one_date_store_def read_Date_def g a b)
qed

end
